theory Spec2Isabelle
  imports Main "HOL-Library.AList"
begin

section \<open>Python values, exceptions and diagnostics\<close>

text \<open>
  The two modules work on untyped dictionaries: the decoded JSON answer of the search
  service, the article dictionaries built from it and the analysis dictionaries merged
  into them. A dictionary is an association list in insertion order, looked up with
  \<open>map_of\<close>. JSON numbers are modelled as integers. A \<open>string\<close> is a list of
  characters, one per code point; the model covers code points below 256.
\<close>

datatype pyval =
    PNone
  | PBool bool
  | PInt int
  | PStr string
  | PList "pyval list"
  | PDict "(string \<times> pyval) list"

type_synonym pydict = "(string \<times> pyval) list"

datatype exn =
    Timeout
  | HTTPError nat
  | RequestException string
  | AttributeError
  | TypeError
  | KeyError string
  | ValueError
  | OtherException string

text \<open>\<open>Timeout\<close> and \<open>HTTPError\<close> are subclasses of \<open>RequestException\<close>.\<close>

fun is_request_exception :: "exn \<Rightarrow> bool" where
  "is_request_exception Timeout = True"
| "is_request_exception (HTTPError _) = True"
| "is_request_exception (RequestException _) = True"
| "is_request_exception _ = False"

text \<open>
  The calls of \<open>st.error\<close> and \<open>st.warning\<close>, one constructor per call site, with
  the values formatted into the message.
\<close>

datatype diag =
    ApiError pyval
  | TimedOut
  | NetworkError exn
  | UnexpectedError exn
  | ConfigureFailed exn
  | AnalyzeWarning pyval exn

fun truthy :: "pyval \<Rightarrow> bool" where
  "truthy PNone = False"
| "truthy (PBool b) = b"
| "truthy (PInt n) = (n \<noteq> 0)"
| "truthy (PStr s) = (s \<noteq> [])"
| "truthy (PList xs) = (xs \<noteq> [])"
| "truthy (PDict d) = (d \<noteq> [])"

text \<open>\<open>d.get(k, default)\<close> on a dictionary; \<open>d.get(k)\<close> is \<open>dict_get d k PNone\<close>.\<close>

definition dict_get :: "pydict \<Rightarrow> string \<Rightarrow> pyval \<Rightarrow> pyval" where
  "dict_get d k dflt = (case map_of d k of None \<Rightarrow> dflt | Some v \<Rightarrow> v)"

text \<open>\<open>v.get(k, default)\<close> on any value: only a dictionary has the method.\<close>

fun py_get :: "pyval \<Rightarrow> string \<Rightarrow> pyval \<Rightarrow> exn + pyval" where
  "py_get (PDict d) k dflt = Inr (dict_get d k dflt)"
| "py_get _ k dflt = Inl AttributeError"

text \<open>\<open>d[k]\<close> on a dictionary.\<close>

definition dict_index :: "pydict \<Rightarrow> string \<Rightarrow> exn + pyval" where
  "dict_index d k = (case map_of d k of None \<Rightarrow> Inl (KeyError k) | Some v \<Rightarrow> Inr v)"

text \<open>
  \<open>v[:n]\<close>: strings and lists are sliced, every other value raises (a dictionary
  raises too: its keys must be hashable, or present).
\<close>

fun py_slice :: "pyval \<Rightarrow> nat \<Rightarrow> exn + pyval" where
  "py_slice (PStr s) n = Inr (PStr (take n s))"
| "py_slice (PList xs) n = Inr (PList (take n xs))"
| "py_slice _ n = Inl TypeError"

text \<open>\<open>v + "..."\<close> with a string on the right.\<close>

fun py_add_str :: "pyval \<Rightarrow> string \<Rightarrow> exn + pyval" where
  "py_add_str (PStr s) t = Inr (PStr (s @ t))"
| "py_add_str _ t = Inl TypeError"

text \<open>\<open>for item in v\<close>: the items of a list, the keys of a dictionary, the characters
  of a string.\<close>

fun py_iter :: "pyval \<Rightarrow> exn + pyval list" where
  "py_iter (PList xs) = Inr xs"
| "py_iter (PDict d) = Inr (map (\<lambda>kv. PStr (fst kv)) d)"
| "py_iter (PStr s) = Inr (map (\<lambda>c. PStr [c]) s)"
| "py_iter _ = Inl TypeError"

section \<open>The article source: \<open>fetch_news\<close>\<close>

text \<open>
  The search service is external. What \<open>requests.get\<close> did for the one request of a
  call is an input of the model: it raised, or it returned a response with a status code
  and a body that \<open>response.json()\<close> decodes or fails on. The URL, the parameters and
  the timeout reach only the service.
\<close>

datatype http = HttpRaises exn | HttpResponse nat "exn + pyval"

text \<open>The condition of line 46.\<close>

definition sufficient :: "pydict \<Rightarrow> bool" where
  "sufficient item \<longleftrightarrow>
     truthy (dict_get item ''title'' PNone) \<and>
     (truthy (dict_get item ''description'' PNone) \<or> truthy (dict_get item ''content'' PNone))"

text \<open>The dictionary of lines 47 to 53; only the slice of \<open>content\<close> can raise.\<close>

definition make_article :: "pydict \<Rightarrow> exn + pydict" where
  "make_article item =
     (case (if truthy (dict_get item ''description'' PNone)
            then Inr (dict_get item ''description'' PNone)
            else py_slice (dict_get item ''content'' (PStr [])) 300) of
        Inl e \<Rightarrow> Inl e
      | Inr description \<Rightarrow>
          Inr [(''title'', dict_get item ''title'' (PStr ''Untitled'')),
               (''description'', description),
               (''url'', dict_get item ''link'' (PStr ''#'')),
               (''source'', dict_get item ''source_id'' (PStr ''Unknown'')),
               (''published_at'', dict_get item ''pubDate'' (PStr []))])"

text \<open>The loop of lines 44 to 54, with the list \<open>articles\<close> it appends to.\<close>

fun fetch_loop :: "pydict list \<Rightarrow> pyval list \<Rightarrow> exn + pydict list" where
  "fetch_loop articles [] = Inr articles"
| "fetch_loop articles (PDict item # rest) =
     (if sufficient item
      then (case make_article item of
              Inl e \<Rightarrow> Inl e
            | Inr article \<Rightarrow> fetch_loop (articles @ [article]) rest)
      else fetch_loop articles rest)"
| "fetch_loop articles (_ # rest) = Inl AttributeError"

text \<open>Lines 38 to 40: the upstream answer does not report success.\<close>

definition fetch_api_error :: "pyval \<Rightarrow> exn + (pydict list \<times> diag list)" where
  "fetch_api_error data =
     (case py_get data ''results'' (PDict []) of
        Inl e \<Rightarrow> Inl e
      | Inr results \<Rightarrow>
          (case py_get results ''message'' (PStr ''Unknown error'') of
             Inl e \<Rightarrow> Inl e
           | Inr message \<Rightarrow> Inr ([], [ApiError message])))"

text \<open>Lines 43 to 56: the articles of a successful answer.\<close>

definition fetch_results :: "pyval \<Rightarrow> exn + (pydict list \<times> diag list)" where
  "fetch_results data =
     (case py_get data ''results'' (PList []) of
        Inl e \<Rightarrow> Inl e
      | Inr results \<Rightarrow>
          (case py_iter results of
             Inl e \<Rightarrow> Inl e
           | Inr items \<Rightarrow>
               (case fetch_loop [] items of
                  Inl e \<Rightarrow> Inl e
                | Inr articles \<Rightarrow> Inr (articles, []))))"

text \<open>The body of the \<open>try\<close>, lines 31 to 56: an exception, or the returned list and
  the diagnostics emitted. \<open>raise_for_status\<close> raises on the codes 400 to 599.\<close>

definition fetch_try :: "http \<Rightarrow> exn + (pydict list \<times> diag list)" where
  "fetch_try h =
     (case h of
        HttpRaises e \<Rightarrow> Inl e
      | HttpResponse code body \<Rightarrow>
          if 400 \<le> code \<and> code < 600 then Inl (HTTPError code)
          else (case body of
                  Inl e \<Rightarrow> Inl e
                | Inr data \<Rightarrow>
                    (case py_get data ''status'' PNone of
                       Inl e \<Rightarrow> Inl e
                     | Inr status \<Rightarrow>
                         if status \<noteq> PStr ''success'' then fetch_api_error data
                         else fetch_results data)))"

text \<open>The three \<open>except\<close> clauses, in the order of the source.\<close>

definition fetch_except :: "exn \<Rightarrow> pydict list \<times> diag list" where
  "fetch_except e =
     (if e = Timeout then ([], [TimedOut])
      else if is_request_exception e then ([], [NetworkError e])
      else ([], [UnexpectedError e]))"

definition fetch_news :: "http \<Rightarrow> pydict list \<times> diag list" where
  "fetch_news h = (case fetch_try h of Inr r \<Rightarrow> r | Inl e \<Rightarrow> fetch_except e)"

section \<open>Strings\<close>

text \<open>
  The character classes of Python on the code points below 256: \<open>str.isspace\<close>
  (used by \<open>strip\<close> and by \<open>\s\<close>), the decimal digits of \<open>\d\<close>, the word
  characters of \<open>\w\<close> (alphanumeric or underscore), and \<open>str.lower\<close>.
\<close>

definition is_space :: "char \<Rightarrow> bool" where
  "is_space c =
     (let n = (of_char c :: nat)
      in (9 \<le> n \<and> n \<le> 13) \<or> (28 \<le> n \<and> n \<le> 32) \<or> n = 133 \<or> n = 160)"

definition is_digit :: "char \<Rightarrow> bool" where
  "is_digit c = (let n = (of_char c :: nat) in 48 \<le> n \<and> n \<le> 57)"

definition is_word :: "char \<Rightarrow> bool" where
  "is_word c =
     (let n = (of_char c :: nat)
      in (48 \<le> n \<and> n \<le> 57) \<or> (65 \<le> n \<and> n \<le> 90) \<or> n = 95 \<or> (97 \<le> n \<and> n \<le> 122) \<or>
         n = 170 \<or> n = 178 \<or> n = 179 \<or> n = 181 \<or> n = 185 \<or> n = 186 \<or>
         (188 \<le> n \<and> n \<le> 190) \<or> (192 \<le> n \<and> n \<le> 214) \<or> (216 \<le> n \<and> n \<le> 246) \<or>
         248 \<le> n)"

definition lower_char :: "char \<Rightarrow> char" where
  "lower_char c =
     (let n = (of_char c :: nat)
      in if (65 \<le> n \<and> n \<le> 90) \<or> (192 \<le> n \<and> n \<le> 214) \<or> (216 \<le> n \<and> n \<le> 222)
         then char_of (n + 32) else c)"

text \<open>
  The upper case of a character, where it is again a single code point below 256 (the
  upper cases of the code points 181, 223 and 255 are not, and are left unchanged here;
  the source capitalizes one of four ASCII words only).
\<close>

definition upper_char :: "char \<Rightarrow> char" where
  "upper_char c =
     (let n = (of_char c :: nat)
      in if (97 \<le> n \<and> n \<le> 122) \<or> (224 \<le> n \<and> n \<le> 246) \<or> (248 \<le> n \<and> n \<le> 254)
         then char_of (n - 32) else c)"

definition py_strip :: "string \<Rightarrow> string" where
  "py_strip s = rev (dropWhile is_space (rev (dropWhile is_space s)))"

definition py_lower :: "string \<Rightarrow> string" where
  "py_lower s = map lower_char s"

definition py_capitalize :: "string \<Rightarrow> string" where
  "py_capitalize s = (case s of [] \<Rightarrow> [] | c # cs \<Rightarrow> upper_char c # map lower_char cs)"

text \<open>
  \<open>int(s)\<close> on a string of decimal digits, which is what \<open>\d+\<close> captures. The
  interpreter refuses a string of more than 4300 digits with a \<open>ValueError\<close> (its
  default limit on the conversion). A string that is not made of decimal digits only is
  never passed by the source.
\<close>

definition int_max_str_digits :: nat where
  "int_max_str_digits = 4300"

definition py_int :: "string \<Rightarrow> exn + int" where
  "py_int s =
     (if s = [] \<or> \<not> list_all is_digit s \<or> int_max_str_digits < length s then Inl ValueError
      else Inr (foldl (\<lambda>a c. 10 * a + (of_char c - 48)) 0 s))"

section \<open>Regular expressions\<close>

text \<open>
  The fragment of Python's \<open>re\<close> that the three patterns of \<open>analyze_article\<close> use,
  with the backtracking order of the library: \<open>rmatch\<close> lists every way a pattern can
  match at the start of the text, the preferred way first, and \<open>re_search\<close> takes the
  first way at the leftmost position that has one. A state is the text still to be read
  and the text captured by group 1, if any.
\<close>

record flags =
  ignorecase :: bool
  dotall :: bool

datatype cclass = Space | Word | Digit | AnyChar | OneOf string

datatype regex =
    Lit string
  | Cls cclass
  | Star cclass
  | Plus cclass
  | PlusLazy cclass
  | Seq regex regex
  | Alt regex regex
  | Group regex
  | Lookahead regex
  | EndAnchor

definition newline :: char where
  "newline = CHR 0x0A"

definition char_eq :: "flags \<Rightarrow> char \<Rightarrow> char \<Rightarrow> bool" where
  "char_eq fl p c = (if ignorecase fl then lower_char p = lower_char c else p = c)"

fun in_class :: "flags \<Rightarrow> cclass \<Rightarrow> char \<Rightarrow> bool" where
  "in_class fl Space c = is_space c"
| "in_class fl Word c = is_word c"
| "in_class fl Digit c = is_digit c"
| "in_class fl AnyChar c = (dotall fl \<or> c \<noteq> newline)"
| "in_class fl (OneOf cs) c = (\<exists>p \<in> set cs. char_eq fl p c)"

text \<open>A literal: the rest of the text after it, if the text starts with it.\<close>

fun match_lit :: "flags \<Rightarrow> string \<Rightarrow> string \<Rightarrow> string option" where
  "match_lit fl [] s = Some s"
| "match_lit fl (p # ps) [] = None"
| "match_lit fl (p # ps) (c # cs) = (if char_eq fl p c then match_lit fl ps cs else None)"

text \<open>
  Repetition of a character class: the texts that can remain, the longest repetition
  first when greedy (\<open>*\<close>, \<open>+\<close>), the shortest first when lazy (\<open>+?\<close>).
\<close>

fun star_greedy :: "(char \<Rightarrow> bool) \<Rightarrow> string \<Rightarrow> string list" where
  "star_greedy P [] = [[]]"
| "star_greedy P (c # cs) = (if P c then star_greedy P cs @ [c # cs] else [c # cs])"

fun star_lazy :: "(char \<Rightarrow> bool) \<Rightarrow> string \<Rightarrow> string list" where
  "star_lazy P [] = [[]]"
| "star_lazy P (c # cs) = (c # cs) # (if P c then star_lazy P cs else [])"

fun plus_greedy :: "(char \<Rightarrow> bool) \<Rightarrow> string \<Rightarrow> string list" where
  "plus_greedy P [] = []"
| "plus_greedy P (c # cs) = (if P c then star_greedy P cs else [])"

fun plus_lazy :: "(char \<Rightarrow> bool) \<Rightarrow> string \<Rightarrow> string list" where
  "plus_lazy P [] = []"
| "plus_lazy P (c # cs) = (if P c then star_lazy P cs else [])"

fun rmatch :: "flags \<Rightarrow> regex \<Rightarrow> string \<times> string option \<Rightarrow> (string \<times> string option) list" where
  "rmatch fl (Lit p) (s, g) = (case match_lit fl p s of None \<Rightarrow> [] | Some s' \<Rightarrow> [(s', g)])"
| "rmatch fl (Cls k) (s, g) =
     (case s of [] \<Rightarrow> [] | c # cs \<Rightarrow> if in_class fl k c then [(cs, g)] else [])"
| "rmatch fl (Star k) (s, g) = map (\<lambda>s'. (s', g)) (star_greedy (in_class fl k) s)"
| "rmatch fl (Plus k) (s, g) = map (\<lambda>s'. (s', g)) (plus_greedy (in_class fl k) s)"
| "rmatch fl (PlusLazy k) (s, g) = map (\<lambda>s'. (s', g)) (plus_lazy (in_class fl k) s)"
| "rmatch fl (Seq a b) st = concat (map (rmatch fl b) (rmatch fl a st))"
| "rmatch fl (Alt a b) st = rmatch fl a st @ rmatch fl b st"
| "rmatch fl (Group r) (s, g) =
     map (\<lambda>st'. (fst st', Some (take (length s - length (fst st')) s))) (rmatch fl r (s, g))"
| "rmatch fl (Lookahead r) (s, g) =
     (case rmatch fl r (s, g) of [] \<Rightarrow> [] | st' # _ \<Rightarrow> [(s, snd st')])"
| "rmatch fl EndAnchor (s, g) = (if s = [] \<or> s = [newline] then [(s, g)] else [])"

text \<open>
  \<open>re.search\<close>: the match object, reduced to its group 1, of the first match at the
  leftmost position; \<open>None\<close> when no position matches.
\<close>

fun re_search :: "flags \<Rightarrow> regex \<Rightarrow> string \<Rightarrow> string option option" where
  "re_search fl r s =
     (case rmatch fl r (s, None) of
        st # _ \<Rightarrow> Some (snd st)
      | [] \<Rightarrow> (case s of [] \<Rightarrow> None | c # cs \<Rightarrow> re_search fl r cs))"

section \<open>The enrichment engine: \<open>analyze_article\<close>\<close>

text \<open>The three patterns of lines 59, 63 and 71 and their flags.\<close>

definition summary_re :: regex where
  "summary_re =
     Seq (Lit ''SUMMARY:'') (Seq (Star Space) (Seq (Group (PlusLazy AnyChar))
       (Lookahead (Alt (Lit ''SENTIMENT:'') EndAnchor))))"

definition sentiment_re :: regex where
  "sentiment_re = Seq (Lit ''SENTIMENT:'') (Seq (Star Space) (Group (Plus Word)))"

definition score_re :: regex where
  "score_re =
     Seq (Lit ''IMPACT'') (Seq (Cls (OneOf ''_ '')) (Seq (Lit ''SCORE:'')
       (Seq (Star Space) (Group (Plus Digit)))))"

definition flags_dotall_ignorecase :: flags where
  "flags_dotall_ignorecase = \<lparr>ignorecase = True, dotall = True\<rparr>"

definition flags_ignorecase :: flags where
  "flags_ignorecase = \<lparr>ignorecase = True, dotall = False\<rparr>"

text \<open>\<open>m.group(1)\<close> followed by a method call or by \<open>int\<close>: a group that did not take
  part in the match is \<open>None\<close>.\<close>

definition group1 :: "string option \<Rightarrow> exn \<Rightarrow> exn + string" where
  "group1 m e = (case m of None \<Rightarrow> Inl e | Some g \<Rightarrow> Inr g)"

text \<open>Lines 59 and 60.\<close>

definition parse_summary :: "string \<Rightarrow> exn + string" where
  "parse_summary analysis_text =
     (case re_search flags_dotall_ignorecase summary_re analysis_text of
        None \<Rightarrow> Inr ''Summary not available.''
      | Some m \<Rightarrow> (case group1 m AttributeError of Inl e \<Rightarrow> Inl e | Inr g \<Rightarrow> Inr (py_strip g)))"

text \<open>Lines 63 to 68.\<close>

definition parse_sentiment :: "string \<Rightarrow> exn + string" where
  "parse_sentiment analysis_text =
     (case (case re_search flags_ignorecase sentiment_re analysis_text of
              None \<Rightarrow> Inr ''neutral''
            | Some m \<Rightarrow> (case group1 m AttributeError of
                           Inl e \<Rightarrow> Inl e
                         | Inr g \<Rightarrow> Inr (py_lower (py_strip g)))) of
        Inl e \<Rightarrow> Inl e
      | Inr sentiment \<Rightarrow>
          if sentiment \<notin> set [''positive'', ''negative'', ''tense'', ''neutral'']
          then Inr ''neutral'' else Inr sentiment)"

text \<open>Lines 71 to 75.\<close>

definition parse_score :: "string \<Rightarrow> exn + int" where
  "parse_score analysis_text =
     (case (case re_search flags_ignorecase score_re analysis_text of
              None \<Rightarrow> Inr 5
            | Some m \<Rightarrow> (case group1 m TypeError of Inl e \<Rightarrow> Inl e | Inr g \<Rightarrow> py_int g)) of
        Inl e \<Rightarrow> Inl e
      | Inr impact_score \<Rightarrow> Inr (max 1 (min 10 impact_score)))"

text \<open>
  The language model is external. What it did for the one request of a call is an input
  of the model: the configuration raised, or it succeeded and the generation (with the
  reading of \<open>response.text\<close>) raised or gave a text. The prompt reaches only the
  service.
\<close>

datatype gen_outcome = GenRaises exn | GenText string

datatype api_outcome = ConfigureRaises exn | Configured gen_outcome

text \<open>The body of the \<open>try\<close>, lines 46 to 81.\<close>

definition analyze_try :: "gen_outcome \<Rightarrow> exn + pydict" where
  "analyze_try gen =
     (case gen of
        GenRaises e \<Rightarrow> Inl e
      | GenText text \<Rightarrow>
          if text = []
          then Inr [(''summary'', PStr ''Analysis unavailable.''),
                    (''sentiment'', PStr ''neutral''),
                    (''impact_score'', PInt 5)]
          else (let analysis_text = py_strip text in
                case parse_summary analysis_text of
                  Inl e \<Rightarrow> Inl e
                | Inr summary \<Rightarrow>
                    (case parse_sentiment analysis_text of
                       Inl e \<Rightarrow> Inl e
                     | Inr sentiment \<Rightarrow>
                         (case parse_score analysis_text of
                            Inl e \<Rightarrow> Inl e
                          | Inr impact_score \<Rightarrow>
                              Inr [(''summary'', PStr summary),
                                   (''sentiment'', PStr (py_capitalize sentiment)),
                                   (''impact_score'', PInt impact_score)]))))"

text \<open>
  The \<open>except\<close> clause, lines 83 to 90: the warning is emitted before the dictionary
  is built, and an exception raised here leaves the function.
\<close>

definition analyze_except :: "pydict \<Rightarrow> exn \<Rightarrow> diag list \<times> (exn + pydict option)" where
  "analyze_except article e =
     (case dict_index article ''title'' of
        Inl x \<Rightarrow> ([], Inl x)
      | Inr title \<Rightarrow>
          (case py_slice title 50 of
             Inl x \<Rightarrow> ([], Inl x)
           | Inr title50 \<Rightarrow>
               (case dict_index article ''description'' of
                  Inl x \<Rightarrow> ([AnalyzeWarning title50 e], Inl x)
                | Inr description \<Rightarrow>
                    (case py_slice description 200 of
                       Inl x \<Rightarrow> ([AnalyzeWarning title50 e], Inl x)
                     | Inr description200 \<Rightarrow>
                         (case py_add_str description200 ''...'' of
                            Inl x \<Rightarrow> ([AnalyzeWarning title50 e], Inl x)
                          | Inr summary \<Rightarrow>
                              ([AnalyzeWarning title50 e],
                               Inr (Some [(''summary'', summary),
                                          (''sentiment'', PStr ''Neutral''),
                                          (''impact_score'', PInt 5)])))))))"

text \<open>
  The function: the diagnostics emitted, and the exception that leaves it or the value
  returned (\<open>None\<close> or an analysis dictionary). Line 27 reads both keys of the article
  before the model is called.
\<close>

definition analyze_article :: "api_outcome \<Rightarrow> pydict \<Rightarrow> diag list \<times> (exn + pydict option)" where
  "analyze_article api article =
     (case api of
        ConfigureRaises e \<Rightarrow> ([ConfigureFailed e], Inr None)
      | Configured gen \<Rightarrow>
          (case dict_index article ''title'' of
             Inl x \<Rightarrow> ([], Inl x)
           | Inr title \<Rightarrow>
               (case dict_index article ''description'' of
                  Inl x \<Rightarrow> ([], Inl x)
                | Inr description \<Rightarrow>
                    (case analyze_try gen of
                       Inr analysis \<Rightarrow> ([], Inr (Some analysis))
                     | Inl e \<Rightarrow> analyze_except article e))))"

section \<open>The batch orchestrator: \<open>batch_analyze_articles\<close>\<close>

text \<open>\<open>{**article, **analysis}\<close>: the keys are inserted from left to right, a later
  value replacing an earlier one in place.\<close>

definition dict_merge :: "pydict \<Rightarrow> pydict \<Rightarrow> pydict" where
  "dict_merge a b = fold (\<lambda>kv d. AList.update (fst kv) (snd kv) d) (a @ b) []"

text \<open>Lines 108 to 112: \<open>if analysis:\<close> holds for a dictionary that is not empty.\<close>

definition batch_append :: "pydict list \<Rightarrow> pydict \<Rightarrow> pydict option \<Rightarrow> pydict list" where
  "batch_append analyzed article analysis =
     (case analysis of
        None \<Rightarrow> analyzed
      | Some d \<Rightarrow> if d \<noteq> [] then analyzed @ [dict_merge article d] else analyzed)"

text \<open>
  The loop of lines 106 to 112, with the list \<open>analyzed\<close> it appends to. The articles
  are analyzed one after the other; \<open>api i\<close> is what the model service does for the
  call numbered \<open>i\<close>.
\<close>

fun batch_loop ::
  "(nat \<Rightarrow> api_outcome) \<Rightarrow> nat \<Rightarrow> pydict list \<Rightarrow> pydict list \<Rightarrow> diag list \<times> (exn + pydict list)" where
  "batch_loop api i analyzed [] = ([], Inr analyzed)"
| "batch_loop api i analyzed (article # rest) =
     (case analyze_article (api i) article of
        (ds, Inl e) \<Rightarrow> (ds, Inl e)
      | (ds, Inr analysis) \<Rightarrow>
          (case batch_loop api (Suc i) (batch_append analyzed article analysis) rest of
             (ds', r) \<Rightarrow> (ds @ ds', r)))"

definition batch_analyze_articles ::
  "(nat \<Rightarrow> api_outcome) \<Rightarrow> pydict list \<Rightarrow> diag list \<times> (exn + pydict list)" where
  "batch_analyze_articles api articles = batch_loop api 0 [] articles"

section \<open>Notions of the specification\<close>

text \<open>
  An article in the sense of the data model: the title and the description are texts.
\<close>

definition is_text_article :: "pydict \<Rightarrow> bool" where
  "is_text_article article =
     (case map_of article ''title'' of
        Some (PStr t) \<Rightarrow> (case map_of article ''description'' of Some (PStr d) \<Rightarrow> True | _ \<Rightarrow> False)
      | _ \<Rightarrow> False)"

text \<open>
  What the \<open>except\<close> clause of \<open>analyze_article\<close> needs of an article: a title that
  can be sliced (a string or a list) and a description that is a string.
\<close>

definition is_analyzable_article :: "pydict \<Rightarrow> bool" where
  "is_analyzable_article article =
     (case map_of article ''description'' of
        Some (PStr d) \<Rightarrow>
          (case map_of article ''title'' of
             Some (PStr t) \<Rightarrow> True
           | Some (PList ts) \<Rightarrow> True
           | _ \<Rightarrow> False)
      | _ \<Rightarrow> False)"

text \<open>
  The summary as the specification words it: the text following the first \<open>SUMMARY:\<close>
  up to the next \<open>SENTIMENT:\<close> or the end of the text, whatever the case of the
  markers, trimmed; a fixed text when there is no \<open>SUMMARY:\<close>.
\<close>

definition has_prefix_ci :: "string \<Rightarrow> string \<Rightarrow> bool" where
  "has_prefix_ci marker s \<longleftrightarrow>
     length marker \<le> length s \<and> py_lower (take (length marker) s) = py_lower marker"

fun text_after_marker :: "string \<Rightarrow> string \<Rightarrow> string option" where
  "text_after_marker marker s =
     (if has_prefix_ci marker s then Some (drop (length marker) s)
      else (case s of [] \<Rightarrow> None | c # cs \<Rightarrow> text_after_marker marker cs))"

fun text_before_marker :: "string \<Rightarrow> string \<Rightarrow> string" where
  "text_before_marker marker s =
     (if has_prefix_ci marker s then []
      else (case s of [] \<Rightarrow> [] | c # cs \<Rightarrow> c # text_before_marker marker cs))"

definition spec_summary :: "string \<Rightarrow> string" where
  "spec_summary text =
     (case text_after_marker ''SUMMARY:'' text of
        None \<Rightarrow> ''Summary not available.''
      | Some rest \<Rightarrow> py_strip (text_before_marker ''SENTIMENT:'' rest))"

text \<open>The field of the dictionary that a call of \<open>analyze_article\<close> returned, if it
  returned one.\<close>

definition returned_field :: "string \<Rightarrow> diag list \<times> (exn + pydict option) \<Rightarrow> pyval option" where
  "returned_field k r = (case snd r of Inr (Some d) \<Rightarrow> map_of d k | _ \<Rightarrow> None)"

section \<open>Properties of \<open>fetch_news\<close>\<close>

declare re_search.simps [simp del]
declare text_after_marker.simps [simp del]
declare text_before_marker.simps [simp del]

lemma fetch_loop_skip:
  "\<not> sufficient item \<Longrightarrow> fetch_loop acc (xs @ PDict item # ys) = fetch_loop acc (xs @ ys)"
proof (induction xs arbitrary: acc)
  case Nil
  then show ?case by simp
next
  case (Cons x xs)
  then show ?case by (cases x) (simp_all split: sum.splits)
qed

lemma fetch_loop_origin:
  "fetch_loop acc items = Inr arts \<Longrightarrow> a \<in> set arts \<Longrightarrow>
     a \<in> set acc \<or> (\<exists>item. PDict item \<in> set items \<and> sufficient item \<and> make_article item = Inr a)"
proof (induction acc items rule: fetch_loop.induct)
  case (1 articles)
  then show ?case by simp
next
  case (2 articles item rest)
  show ?case
  proof (cases "sufficient item")
    case True
    with 2 show ?thesis by (auto split: sum.splits)
  next
    case False
    with 2 show ?thesis by auto
  qed
qed simp_all

lemma fetch_except_shape: "\<exists>d. fetch_except e = ([], [d])"
  by (simp add: fetch_except_def)

lemma fetch_except_fst: "fst (fetch_except e) = []"
  by (simp add: fetch_except_def)

lemma fetch_api_error_fst: "fetch_api_error data = Inr r \<Longrightarrow> fst r = []"
  by (auto simp: fetch_api_error_def split: sum.splits)

lemma fetch_loop_not_list:
  "py_iter results = Inr items \<Longrightarrow> fetch_loop [] items = Inr arts \<Longrightarrow> a \<in> set arts \<Longrightarrow>
     \<exists>xs. results = PList xs"
proof (cases results)
  case (PStr s)
  assume "py_iter results = Inr items" "fetch_loop [] items = Inr arts" "a \<in> set arts"
  with PStr show ?thesis by (cases s) auto
next
  case (PDict d)
  assume "py_iter results = Inr items" "fetch_loop [] items = Inr arts" "a \<in> set arts"
  with PDict show ?thesis by (cases d) auto
qed auto

lemma fetch_results_origin:
  assumes "fetch_results data = Inr r" and "a \<in> set (fst r)"
  shows "\<exists>d items item. data = PDict d \<and> dict_get d ''results'' (PList []) = PList items \<and>
           PDict item \<in> set items \<and> sufficient item \<and> make_article item = Inr a"
proof -
  from assms(1) obtain d where d: "data = PDict d"
    by (cases data) (simp_all add: fetch_results_def)
  from assms(1) d obtain items arts where
    it: "py_iter (dict_get d ''results'' (PList [])) = Inr items" and
    lp: "fetch_loop [] items = Inr arts" and r: "r = (arts, [])"
    by (auto simp: fetch_results_def split: sum.splits)
  from assms(2) r have a: "a \<in> set arts" by simp
  from fetch_loop_not_list [OF it lp a] obtain xs where
    xs: "dict_get d ''results'' (PList []) = PList xs" by blast
  with it have "items = xs" by simp
  with fetch_loop_origin [OF lp a] xs d show ?thesis by auto
qed

lemma fetch_news_origin:
  assumes "a \<in> set (fst (fetch_news h))"
  shows "\<exists>code d items item. h = HttpResponse code (Inr (PDict d)) \<and>
           dict_get d ''results'' (PList []) = PList items \<and>
           PDict item \<in> set items \<and> sufficient item \<and> make_article item = Inr a"
proof (cases "fetch_try h")
  case (Inl e)
  with assms show ?thesis by (simp add: fetch_news_def fetch_except_fst)
next
  case (Inr r)
  with assms have a: "a \<in> set (fst r)" by (simp add: fetch_news_def)
  from Inr obtain code data where h: "h = HttpResponse code (Inr data)"
    by (cases h) (auto simp: fetch_try_def split: if_splits sum.splits)
  from Inr h a have "fetch_results data = Inr r"
    by (auto simp: fetch_try_def split: if_splits sum.splits dest: fetch_api_error_fst)
  from fetch_results_origin [OF this a] h show ?thesis by auto
qed

lemma fetch_news_success:
  assumes "dict_get d ''status'' PNone = PStr ''success''"
      and "dict_get d ''results'' (PList []) = PList items"
  shows "fetch_news (HttpResponse code (Inr (PDict d))) =
           (if 400 \<le> code \<and> code < 600 then fetch_except (HTTPError code)
            else (case fetch_loop [] items of Inl e \<Rightarrow> fetch_except e | Inr arts \<Rightarrow> (arts, [])))"
  using assms by (simp add: fetch_news_def fetch_try_def fetch_results_def split: sum.splits)

text \<open>
  Claim C6. An article of the output comes from an item of the upstream result list whose
  title is present and whose description or content is present (present: neither absent,
  null nor empty), and it is the article built from that item. An item whose description
  and content are both absent or empty is left out without any error: the call returns
  what it returns on the same answer without that item, articles and diagnostics alike.
\<close>

theorem fetch_news_requires_content:
  "(a \<in> set (fst (fetch_news h)) \<longrightarrow>
      (\<exists>code data items item.
          h = HttpResponse code (Inr (PDict data)) \<and>
          dict_get data ''results'' (PList []) = PList items \<and>
          PDict item \<in> set items \<and>
          truthy (dict_get item ''title'' PNone) \<and>
          (truthy (dict_get item ''description'' PNone) \<or> truthy (dict_get item ''content'' PNone)) \<and>
          make_article item = Inr a)) \<and>
   (dict_get d ''status'' PNone = PStr ''success'' \<and>
    dict_get d ''results'' (PList []) = PList (before @ PDict it # after) \<and>
    dict_get d' ''status'' PNone = PStr ''success'' \<and>
    dict_get d' ''results'' (PList []) = PList (before @ after) \<and>
    \<not> truthy (dict_get it ''description'' PNone) \<and> \<not> truthy (dict_get it ''content'' PNone) \<longrightarrow>
      fetch_news (HttpResponse c (Inr (PDict d))) = fetch_news (HttpResponse c (Inr (PDict d'))))"
proof (intro conjI impI)
  assume "a \<in> set (fst (fetch_news h))"
  from fetch_news_origin [OF this] show
    "\<exists>code data items item.
          h = HttpResponse code (Inr (PDict data)) \<and>
          dict_get data ''results'' (PList []) = PList items \<and>
          PDict item \<in> set items \<and>
          truthy (dict_get item ''title'' PNone) \<and>
          (truthy (dict_get item ''description'' PNone) \<or> truthy (dict_get item ''content'' PNone)) \<and>
          make_article item = Inr a"
    unfolding sufficient_def by blast
next
  assume A: "dict_get d ''status'' PNone = PStr ''success'' \<and>
    dict_get d ''results'' (PList []) = PList (before @ PDict it # after) \<and>
    dict_get d' ''status'' PNone = PStr ''success'' \<and>
    dict_get d' ''results'' (PList []) = PList (before @ after) \<and>
    \<not> truthy (dict_get it ''description'' PNone) \<and> \<not> truthy (dict_get it ''content'' PNone)"
  then have "\<not> sufficient it" by (simp add: sufficient_def)
  then have "fetch_loop [] (before @ PDict it # after) = fetch_loop [] (before @ after)"
    by (rule fetch_loop_skip)
  with A show "fetch_news (HttpResponse c (Inr (PDict d))) = fetch_news (HttpResponse c (Inr (PDict d')))"
    by (simp add: fetch_news_success)
qed

theorem fetch_news_requires_content_witness:
  "(let good = [(''title'', PStr ''A''), (''description'', PStr ''B'')];
        bare = [(''title'', PStr ''C''), (''description'', PStr []), (''content'', PNone)];
        d = [(''status'', PStr ''success''), (''results'', PList [PDict bare, PDict good])];
        d' = [(''status'', PStr ''success''), (''results'', PList [PDict good])];
        a = [(''title'', PStr ''A''), (''description'', PStr ''B''), (''url'', PStr ''#''),
             (''source'', PStr ''Unknown''), (''published_at'', PStr [])]
    in fetch_news (HttpResponse 200 (Inr (PDict d))) = ([a], []) \<and>
       a \<in> set (fst (fetch_news (HttpResponse 200 (Inr (PDict d))))) \<and>
       make_article good = Inr a \<and>
       \<not> truthy (dict_get bare ''description'' PNone) \<and> \<not> truthy (dict_get bare ''content'' PNone) \<and>
       fetch_news (HttpResponse 200 (Inr (PDict d))) = fetch_news (HttpResponse 200 (Inr (PDict d'))))"
  using fetch_news_requires_content
    [of "[(''title'', PStr ''A''), (''description'', PStr ''B''), (''url'', PStr ''#''),
             (''source'', PStr ''Unknown''), (''published_at'', PStr [])]"
        "HttpResponse 200 (Inr (PDict [(''status'', PStr ''success''), (''results'', PList [PDict [(''title'', PStr ''C''), (''description'', PStr []), (''content'', PNone)], PDict [(''title'', PStr ''A''), (''description'', PStr ''B'')]])]))"
        "[(''status'', PStr ''success''), (''results'', PList [PDict [(''title'', PStr ''C''), (''description'', PStr []), (''content'', PNone)], PDict [(''title'', PStr ''A''), (''description'', PStr ''B'')]])]"
        "[]" "[(''title'', PStr ''C''), (''description'', PStr []), (''content'', PNone)]"
        "[PDict [(''title'', PStr ''A''), (''description'', PStr ''B'')]]"
        "[(''status'', PStr ''success''), (''results'', PList [PDict [(''title'', PStr ''A''), (''description'', PStr ''B'')]])]"
        200]
  by (simp add: Let_def fetch_news_def fetch_try_def fetch_results_def make_article_def
        sufficient_def dict_get_def)

text \<open>
  Claim C7. The result of \<open>fetch_news\<close> is a list and the diagnostics, for every
  outcome of the network call: no exception leaves the function. When the network call
  raises, and a timeout in particular, when the body cannot be decoded, or when the
  status code is an error code, the list is empty and exactly one diagnostic is emitted.
\<close>

theorem fetch_news_network_failure:
  "(\<exists>d. fetch_news (HttpRaises e) = ([], [d])) \<and>
   fetch_news (HttpRaises Timeout) = ([], [TimedOut]) \<and>
   (\<exists>d. fetch_news (HttpResponse code (Inl e)) = ([], [d])) \<and>
   (400 \<le> code \<and> code < 600 \<longrightarrow> fetch_news (HttpResponse code body) = ([], [NetworkError (HTTPError code)]))"
  by (simp add: fetch_news_def fetch_try_def fetch_except_def)

theorem fetch_news_network_failure_witness:
  "fetch_news (HttpRaises (RequestException ''connection refused'')) =
     ([], [NetworkError (RequestException ''connection refused'')]) \<and>
   fetch_news (HttpRaises Timeout) = ([], [TimedOut]) \<and>
   fetch_news (HttpResponse 200 (Inl ValueError)) = ([], [UnexpectedError ValueError]) \<and>
   (400 \<le> (404::nat) \<and> (404::nat) < 600) \<and>
   fetch_news (HttpResponse 404 (Inr PNone)) = ([], [NetworkError (HTTPError 404)])"
  using fetch_news_network_failure [of "RequestException ''connection refused''" 404 "Inr PNone"]
    fetch_news_network_failure [of ValueError 200 "Inr PNone"]
  by (simp add: fetch_news_def fetch_try_def fetch_except_def)

text \<open>
  Claim C8. On the upstream answer with status \<open>success\<close> and the one result item
  with title \<open>A\<close>, description \<open>B\<close>, link \<open>http://x\<close>, source_id \<open>S\<close> and
  pubDate \<open>t\<close>, received with a status code that is not an error code,
  \<open>fetch_news\<close> returns exactly one article, with title \<open>A\<close>, description \<open>B\<close>,
  url \<open>http://x\<close>, source \<open>S\<close> and published_at \<open>t\<close>, and emits no diagnostic.
\<close>

theorem fetch_news_round_trip:
  "code < 400 \<or> 600 \<le> code \<Longrightarrow>
   fetch_news (HttpResponse code (Inr (PDict
       [(''status'', PStr ''success''),
        (''results'', PList [PDict [(''title'', PStr ''A''), (''description'', PStr ''B''),
                                    (''link'', PStr ''http://x''), (''source_id'', PStr ''S''),
                                    (''pubDate'', PStr ''t'')]])]))) =
     ([[(''title'', PStr ''A''), (''description'', PStr ''B''), (''url'', PStr ''http://x''),
        (''source'', PStr ''S''), (''published_at'', PStr ''t'')]], [])"
  by (auto simp: fetch_news_def fetch_try_def fetch_results_def make_article_def sufficient_def dict_get_def)

theorem fetch_news_round_trip_witness:
  "((200::nat) < 400 \<or> 600 \<le> (200::nat)) \<and>
   fetch_news (HttpResponse 200 (Inr (PDict
       [(''status'', PStr ''success''),
        (''results'', PList [PDict [(''title'', PStr ''A''), (''description'', PStr ''B''),
                                    (''link'', PStr ''http://x''), (''source_id'', PStr ''S''),
                                    (''pubDate'', PStr ''t'')]])]))) =
     ([[(''title'', PStr ''A''), (''description'', PStr ''B''), (''url'', PStr ''http://x''),
        (''source'', PStr ''S''), (''published_at'', PStr ''t'')]], [])"
  using fetch_news_round_trip [of 200] by simp

section \<open>Properties of \<open>analyze_article\<close>\<close>

lemma is_text_articleD:
  "is_text_article article \<Longrightarrow>
     \<exists>t d. map_of article ''title'' = Some (PStr t) \<and> map_of article ''description'' = Some (PStr d)"
  by (auto simp: is_text_article_def split: option.splits pyval.splits)

lemma analyze_except_text:
  assumes "map_of article ''title'' = Some (PStr t)"
      and "map_of article ''description'' = Some (PStr d)"
  shows "analyze_except article e =
           ([AnalyzeWarning (PStr (take 50 t)) e],
            Inr (Some [(''summary'', PStr (take 200 d @ ''...'')),
                       (''sentiment'', PStr ''Neutral''),
                       (''impact_score'', PInt 5)]))"
  using assms by (simp add: analyze_except_def dict_index_def)

lemma analyze_article_text:
  assumes "map_of article ''title'' = Some (PStr t)"
      and "map_of article ''description'' = Some (PStr d)"
  shows "analyze_article (Configured gen) article =
           (case analyze_try gen of
              Inr analysis \<Rightarrow> ([], Inr (Some analysis))
            | Inl e \<Rightarrow> analyze_except article e)"
  using assms by (simp add: analyze_article_def dict_index_def)

text \<open>
  Claim C3. For an article whose title and description are texts, when the model
  invocation raises, \<open>analyze_article\<close> returns a dictionary (not \<open>None\<close>) whose
  summary is the first 200 characters of the description followed by three dots, whose
  sentiment is \<open>Neutral\<close> and whose impact score is 5, after one warning that names the
  first 50 characters of the title.
\<close>

theorem analyze_article_degraded:
  assumes "map_of article ''title'' = Some (PStr t)"
      and "map_of article ''description'' = Some (PStr d)"
  shows "analyze_article (Configured (GenRaises e)) article =
           ([AnalyzeWarning (PStr (take 50 t)) e],
            Inr (Some [(''summary'', PStr (take 200 d @ ''...'')),
                       (''sentiment'', PStr ''Neutral''),
                       (''impact_score'', PInt 5)]))"
  using assms by (simp add: analyze_article_text analyze_except_text analyze_try_def)

theorem analyze_article_degraded_witness:
  "map_of [(''title'', PStr ''Summit''), (''description'', PStr ''Talks resume.'')] ''title'' = Some (PStr ''Summit'') \<and>
   map_of [(''title'', PStr ''Summit''), (''description'', PStr ''Talks resume.'')] ''description'' = Some (PStr ''Talks resume.'') \<and>
   analyze_article (Configured (GenRaises (OtherException ''rate limit'')))
       [(''title'', PStr ''Summit''), (''description'', PStr ''Talks resume.'')] =
     ([AnalyzeWarning (PStr ''Summit'') (OtherException ''rate limit'')],
      Inr (Some [(''summary'', PStr ''Talks resume....''),
                 (''sentiment'', PStr ''Neutral''),
                 (''impact_score'', PInt 5)]))"
  using analyze_article_degraded [of "[(''title'', PStr ''Summit''), (''description'', PStr ''Talks resume.'')]"
      "''Summit''" "''Talks resume.''" "OtherException ''rate limit''"]
  by simp

text \<open>
  Claim C9. On an empty reply of the model, the returned dictionary has the summary
  \<open>Analysis unavailable.\<close> and the impact score 5, and its sentiment is the lower-case
  \<open>neutral\<close> of line 51, where the two other paths of the function return \<open>Neutral\<close>.
\<close>

theorem analyze_article_empty_reply:
  "analyze_article (Configured (GenText [])) [(''title'', PStr ''T''), (''description'', PStr ''D'')] =
     ([], Inr (Some [(''summary'', PStr ''Analysis unavailable.''),
                     (''sentiment'', PStr ''neutral''),
                     (''impact_score'', PInt 5)]))"
  by (simp add: analyze_article_def dict_index_def analyze_try_def)

text \<open>
  Claim C1. The sentiment that \<open>analyze_article\<close> returns on an empty reply of the
  model is \<open>neutral\<close>, which is none of the four capitalized values.
\<close>

theorem analyze_article_empty_reply_sentiment:
  "returned_field ''sentiment''
     (analyze_article (Configured (GenText []))
        [(''title'', PStr ''Summit''), (''description'', PStr ''Talks resume.'')]) =
     Some (PStr ''neutral'') \<and>
   PStr ''neutral'' \<notin> {PStr ''Positive'', PStr ''Negative'', PStr ''Tense'', PStr ''Neutral''}"
  by (simp add: returned_field_def analyze_article_def dict_index_def analyze_try_def)

section \<open>The three patterns\<close>

lemma star_greedy_suffix:
  "s' \<in> set (star_greedy P s) \<Longrightarrow> \<exists>ds. list_all P ds \<and> s = ds @ s'"
proof (induction s)
  case Nil
  then show ?case by simp
next
  case (Cons c cs)
  show ?case
  proof (cases "s' = c # cs")
    case True
    then show ?thesis by (intro exI [of _ "[]"]) simp
  next
    case False
    with Cons.prems have "P c" and "s' \<in> set (star_greedy P cs)"
      by (auto split: if_splits)
    with Cons.IH obtain ds where "list_all P ds" "cs = ds @ s'" by blast
    with \<open>P c\<close> show ?thesis by (intro exI [of _ "c # ds"]) simp
  qed
qed

lemma plus_greedy_suffix:
  "s' \<in> set (plus_greedy P s) \<Longrightarrow> \<exists>ds. ds \<noteq> [] \<and> list_all P ds \<and> s = ds @ s'"
proof (cases s)
  case Nil
  assume "s' \<in> set (plus_greedy P s)"
  with Nil show ?thesis by simp
next
  case (Cons c cs)
  assume "s' \<in> set (plus_greedy P s)"
  with Cons have "P c" and "s' \<in> set (star_greedy P cs)" by (auto split: if_splits)
  from star_greedy_suffix [OF this(2)] obtain ds where "list_all P ds" "cs = ds @ s'" by blast
  with \<open>P c\<close> Cons show ?thesis by (intro exI [of _ "c # ds"]) simp
qed

lemma rmatch_lookahead_marker:
  "st \<in> set (rmatch fl (Lookahead (Alt (Lit m) EndAnchor)) (s, g)) \<Longrightarrow> st = (s, g)"
  by (auto split: list.splits option.splits if_splits simp: Cons_eq_append_conv)

lemma summary_re_group:
  "st \<in> set (rmatch fl summary_re (s, g)) \<Longrightarrow> snd st \<noteq> None"
  unfolding summary_re_def
  apply (simp only: rmatch.simps(6))
  apply (auto dest!: rmatch_lookahead_marker simp del: rmatch.simps(9))
  done

lemma sentiment_re_group:
  "st \<in> set (rmatch fl sentiment_re (s, g)) \<Longrightarrow> snd st \<noteq> None"
  by (auto simp: sentiment_re_def)

lemma match_lit_length: "match_lit fl p s = Some s' \<Longrightarrow> length s' \<le> length s"
  by (induction fl p s rule: match_lit.induct) (auto split: if_splits)

lemma star_lazy_length: "s' \<in> set (star_lazy P s) \<Longrightarrow> length s' \<le> length s"
  by (induction s) (auto split: if_splits)

lemma plus_lazy_length: "s' \<in> set (plus_lazy P s) \<Longrightarrow> length s' \<le> length s"
  by (cases s) (auto split: if_splits dest: star_lazy_length)

lemma rmatch_length:
  "st \<in> set (rmatch fl r (s, g)) \<Longrightarrow> length (fst st) \<le> length s"
proof (induction r arbitrary: s g st)
  case (Lit p)
  then show ?case by (cases "match_lit fl p s") (auto dest: match_lit_length)
next
  case (Cls k)
  then show ?case by (auto split: list.splits if_splits)
next
  case (Star k)
  then show ?case by (auto dest!: star_greedy_suffix)
next
  case (Plus k)
  then show ?case by (auto dest!: plus_greedy_suffix)
next
  case (PlusLazy k)
  then show ?case by (auto dest: plus_lazy_length)
next
  case (Seq a b)
  from Seq.prems obtain st1 where
    1: "st1 \<in> set (rmatch fl a (s, g))" and 2: "st \<in> set (rmatch fl b st1)" by auto
  from 2 have "st \<in> set (rmatch fl b (fst st1, snd st1))" by simp
  from Seq.IH(1) [OF 1] Seq.IH(2) [OF this] show ?case by simp
next
  case (Alt a b)
  then show ?case by (cases st) auto
next
  case (Group r)
  then show ?case by auto
next
  case (Lookahead r)
  then show ?case by (auto split: list.splits)
next
  case EndAnchor
  then show ?case by (auto split: if_splits)
qed

lemma rmatch_length':
  "st \<in> set (rmatch fl r st0) \<Longrightarrow> length (fst st) \<le> length (fst st0)"
  using rmatch_length [of st fl r "fst st0" "snd st0"] by simp

lemma rmatch_SeqD:
  "st \<in> set (rmatch fl (Seq a b) st0) \<Longrightarrow>
     \<exists>st1. st1 \<in> set (rmatch fl a st0) \<and> st \<in> set (rmatch fl b st1)"
  by auto

lemma rmatch_group_digits:
  assumes "st \<in> set (rmatch fl (Group (Plus Digit)) (s, g))"
  shows "\<exists>ds. snd st = Some ds \<and> ds \<noteq> [] \<and> list_all is_digit ds \<and> length ds \<le> length s"
proof -
  from assms obtain s2 where
    s2: "s2 \<in> set (plus_greedy (in_class fl Digit) s)" and
    st: "snd st = Some (take (length s - length s2) s)"
    by auto
  from plus_greedy_suffix [OF s2] obtain ds where
    "ds \<noteq> []" "list_all (in_class fl Digit) ds" "s = ds @ s2" by blast
  with st show ?thesis by (auto simp: list_all_iff)
qed

lemma score_re_group:
  assumes "st \<in> set (rmatch fl score_re (s, g))"
  shows "\<exists>ds. snd st = Some ds \<and> ds \<noteq> [] \<and> list_all is_digit ds \<and> length ds \<le> length s"
proof -
  from assms obtain st1 where
    1: "st1 \<in> set (rmatch fl (Lit ''IMPACT'') (s, g))" and
    r1: "st \<in> set (rmatch fl (Seq (Cls (OneOf ''_ '')) (Seq (Lit ''SCORE:'')
           (Seq (Star Space) (Group (Plus Digit))))) st1)"
    unfolding score_re_def using rmatch_SeqD by blast
  from r1 obtain st2 where
    2: "st2 \<in> set (rmatch fl (Cls (OneOf ''_ '')) st1)" and
    r2: "st \<in> set (rmatch fl (Seq (Lit ''SCORE:'') (Seq (Star Space) (Group (Plus Digit)))) st2)"
    using rmatch_SeqD by blast
  from r2 obtain st3 where
    3: "st3 \<in> set (rmatch fl (Lit ''SCORE:'') st2)" and
    r3: "st \<in> set (rmatch fl (Seq (Star Space) (Group (Plus Digit))) st3)"
    using rmatch_SeqD by blast
  from r3 obtain st4 where
    4: "st4 \<in> set (rmatch fl (Star Space) st3)" and
    r4: "st \<in> set (rmatch fl (Group (Plus Digit)) st4)"
    using rmatch_SeqD by blast
  from rmatch_length [OF 1] rmatch_length' [OF 2] rmatch_length' [OF 3] rmatch_length' [OF 4]
  have "length (fst st4) \<le> length s" by simp
  moreover from rmatch_group_digits [of st fl "fst st4" "snd st4"] r4 obtain ds where
    "snd st = Some ds" "ds \<noteq> []" "list_all is_digit ds" "length ds \<le> length (fst st4)" by auto
  ultimately show ?thesis by auto
qed

lemma re_search_SomeD:
  "re_search fl r s = Some m \<Longrightarrow>
     \<exists>s' st. length s' \<le> length s \<and> st \<in> set (rmatch fl r (s', None)) \<and> snd st = m"
proof (induction s)
  case Nil
  then show ?case by (subst (asm) re_search.simps) (auto split: list.splits)
next
  case (Cons c cs)
  show ?case
  proof (cases "rmatch fl r (c # cs, None)")
    case Nil
    with Cons.prems have "re_search fl r cs = Some m"
      by (subst (asm) re_search.simps) simp
    from Cons.IH [OF this] obtain s' st where
      "length s' \<le> length cs" "st \<in> set (rmatch fl r (s', None))" "snd st = m" by blast
    then have "length s' \<le> length (c # cs) \<and> st \<in> set (rmatch fl r (s', None)) \<and> snd st = m"
      by simp
    then show ?thesis by blast
  next
    case (Cons st sts)
    with Cons.prems have "snd st = m" by (subst (asm) re_search.simps) simp
    with Cons show ?thesis by (intro exI [of _ "c # cs"] exI [of _ st]) simp
  qed
qed

lemma parse_summary_returns: "\<exists>summary. parse_summary text = Inr summary"
proof (cases "re_search flags_dotall_ignorecase summary_re text")
  case None
  then show ?thesis by (simp add: parse_summary_def)
next
  case (Some m)
  from re_search_SomeD [OF this] summary_re_group have "m \<noteq> None" by blast
  with Some show ?thesis by (auto simp: parse_summary_def group1_def)
qed

lemma parse_sentiment_returns:
  "\<exists>sentiment. parse_sentiment text = Inr sentiment \<and>
      sentiment \<in> {''positive'', ''negative'', ''tense'', ''neutral''}"
proof (cases "re_search flags_ignorecase sentiment_re text")
  case None
  then show ?thesis by (simp add: parse_sentiment_def)
next
  case (Some m)
  from re_search_SomeD [OF this] sentiment_re_group have "m \<noteq> None" by blast
  with Some show ?thesis by (auto simp: parse_sentiment_def group1_def)
qed

lemma parse_score_range: "parse_score text = Inr n \<Longrightarrow> 1 \<le> n \<and> n \<le> 10"
  by (auto simp: parse_score_def split: option.splits sum.splits)

lemma parse_score_absent:
  "re_search flags_ignorecase score_re text = None \<Longrightarrow> parse_score text = Inr 5"
  by (simp add: parse_score_def)

lemma parse_score_digits:
  assumes "re_search flags_ignorecase score_re text = Some m"
  shows "\<exists>ds. m = Some ds \<and> ds \<noteq> [] \<and> list_all is_digit ds \<and> length ds \<le> length text"
proof -
  from re_search_SomeD [OF assms] obtain s' st where
    "length s' \<le> length text" "st \<in> set (rmatch flags_ignorecase score_re (s', None))" "snd st = m"
    by blast
  with score_re_group [of st flags_ignorecase s' None] show ?thesis by auto
qed

lemma parse_score_clamps:
  "re_search flags_ignorecase score_re text = Some (Some ds) \<Longrightarrow> py_int ds = Inr v \<Longrightarrow>
     parse_score text = Inr (max 1 (min 10 v))"
  by (simp add: parse_score_def group1_def)

lemma py_capitalize_words:
  "py_capitalize ''positive'' = ''Positive''"
  "py_capitalize ''negative'' = ''Negative''"
  "py_capitalize ''tense'' = ''Tense''"
  "py_capitalize ''neutral'' = ''Neutral''"
  by code_simp+

lemma py_capitalize_canonical:
  "s \<in> {''positive'', ''negative'', ''tense'', ''neutral''} \<Longrightarrow>
     py_capitalize s \<in> {''Positive'', ''Negative'', ''Tense'', ''Neutral''}"
  by (auto simp: py_capitalize_words)

section \<open>The fields of the analysis\<close>

lemma analyze_try_text:
  assumes "reply \<noteq> []"
  shows "\<exists>summary sentiment.
           parse_summary (py_strip reply) = Inr summary \<and>
           parse_sentiment (py_strip reply) = Inr sentiment \<and>
           sentiment \<in> {''positive'', ''negative'', ''tense'', ''neutral''} \<and>
           analyze_try (GenText reply) =
             (case parse_score (py_strip reply) of
                Inl e \<Rightarrow> Inl e
              | Inr n \<Rightarrow> Inr [(''summary'', PStr summary),
                              (''sentiment'', PStr (py_capitalize sentiment)),
                              (''impact_score'', PInt n)])"
proof -
  from parse_summary_returns obtain summary where
    1: "parse_summary (py_strip reply) = Inr summary" by blast
  from parse_sentiment_returns obtain sentiment where
    2: "parse_sentiment (py_strip reply) = Inr sentiment"
       "sentiment \<in> {''positive'', ''negative'', ''tense'', ''neutral''}" by blast
  from assms 1 2 show ?thesis
    by (simp add: analyze_try_def Let_def split: sum.splits)
qed

lemma analyze_try_fields:
  assumes "analyze_try gen = Inr d"
  shows "(\<exists>n. map_of d ''impact_score'' = Some (PInt n) \<and> 1 \<le> n \<and> n \<le> 10) \<and>
         (\<exists>s. map_of d ''sentiment'' = Some (PStr s) \<and>
              (s \<in> {''Positive'', ''Negative'', ''Tense'', ''Neutral''} \<or> gen = GenText []))"
proof (cases gen)
  case (GenRaises e)
  with assms show ?thesis by (simp add: analyze_try_def)
next
  case (GenText reply)
  show ?thesis
  proof (cases "reply = []")
    case True
    with assms GenText show ?thesis by (auto simp: analyze_try_def)
  next
    case False
    from analyze_try_text [OF False] obtain summary sentiment where
      canon: "sentiment \<in> {''positive'', ''negative'', ''tense'', ''neutral''}" and
      eq: "analyze_try (GenText reply) =
             (case parse_score (py_strip reply) of
                Inl e \<Rightarrow> Inl e
              | Inr n \<Rightarrow> Inr [(''summary'', PStr summary),
                              (''sentiment'', PStr (py_capitalize sentiment)),
                              (''impact_score'', PInt n)])"
      by blast
    show ?thesis
    proof (cases "parse_score (py_strip reply)")
      case (Inl e)
      with eq assms GenText show ?thesis by simp
    next
      case (Inr n)
      with eq assms GenText have
        d: "d = [(''summary'', PStr summary), (''sentiment'', PStr (py_capitalize sentiment)),
                 (''impact_score'', PInt n)]" by simp
      from parse_score_range [OF Inr] py_capitalize_canonical [OF canon] d
      show ?thesis by auto
    qed
  qed
qed

lemma analyze_except_fields:
  assumes "analyze_except article e = (ds, Inr (Some d))"
  shows "map_of d ''impact_score'' = Some (PInt 5) \<and> map_of d ''sentiment'' = Some (PStr ''Neutral'')"
  using assms by (auto simp: analyze_except_def split: sum.splits)

lemma analyze_article_fields:
  assumes "snd (analyze_article api article) = Inr (Some d)"
  shows "(\<exists>n. map_of d ''impact_score'' = Some (PInt n) \<and> 1 \<le> n \<and> n \<le> 10) \<and>
         (\<exists>s. map_of d ''sentiment'' = Some (PStr s) \<and>
              (s \<in> {''Positive'', ''Negative'', ''Tense'', ''Neutral''} \<or> api = Configured (GenText [])))"
proof (cases api)
  case (ConfigureRaises e)
  with assms show ?thesis by (simp add: analyze_article_def)
next
  case (Configured gen)
  show ?thesis
  proof (cases "analyze_try gen")
    case (Inr analysis)
    with assms Configured have "d = analysis"
      by (auto simp: analyze_article_def split: sum.splits)
    with analyze_try_fields [OF Inr] Configured show ?thesis by simp
  next
    case (Inl e)
    with assms Configured obtain ds where "analyze_except article e = (ds, Inr (Some d))"
      by (cases "analyze_except article e") (auto simp: analyze_article_def split: sum.splits)
    from analyze_except_fields [OF this] show ?thesis by simp
  qed
qed

lemma analyze_article_sentiment_canonical:
  assumes "snd (analyze_article api article) = Inr (Some d)" and "api \<noteq> Configured (GenText [])"
  shows "\<exists>s. map_of d ''sentiment'' = Some (PStr s) \<and>
              s \<in> {''Positive'', ''Negative'', ''Tense'', ''Neutral''}"
  using analyze_article_fields [OF assms(1)] assms(2) by blast

lemma returned_field_text:
  assumes "is_text_article article"
  shows "returned_field k (analyze_article (Configured gen) article) =
           (case analyze_try gen of
              Inr analysis \<Rightarrow> map_of analysis k
            | Inl e \<Rightarrow> map_of [(''summary'', PStr (take 200 (case map_of article ''description'' of Some (PStr d) \<Rightarrow> d | _ \<Rightarrow> []) @ ''...'')),
                               (''sentiment'', PStr ''Neutral''),
                               (''impact_score'', PInt 5)] k)"
proof -
  from assms obtain t d where
    td: "map_of article ''title'' = Some (PStr t)" "map_of article ''description'' = Some (PStr d)"
    using is_text_articleD by blast
  show ?thesis
    by (simp add: returned_field_def analyze_article_text [OF td] analyze_except_text [OF td] td
          split: sum.splits)
qed

lemma score_examples:
  "analyze_try (GenText ''IMPACT_SCORE: 15'') =
     Inr [(''summary'', PStr ''Summary not available.''), (''sentiment'', PStr ''Neutral''),
          (''impact_score'', PInt 10)]"
  "analyze_try (GenText ''IMPACT_SCORE: 0'') =
     Inr [(''summary'', PStr ''Summary not available.''), (''sentiment'', PStr ''Neutral''),
          (''impact_score'', PInt 1)]"
  "analyze_try (GenText ''IMPACT_SCORE: 7'') =
     Inr [(''summary'', PStr ''Summary not available.''), (''sentiment'', PStr ''Neutral''),
          (''impact_score'', PInt 7)]"
  by code_simp+

text \<open>
  Claim C2. Whenever \<open>analyze_article\<close> returns a dictionary, its impact score is an
  integer from 1 to 10. For an article whose title and description are texts: the replies
  \<open>IMPACT_SCORE: 15\<close>, \<open>IMPACT_SCORE: 0\<close> and \<open>IMPACT_SCORE: 7\<close> give the scores
  10, 1 and 7; a reply in which the pattern of line 71 finds no score gives 5; and a
  non-empty reply in which it finds the digits of the integer \<open>v\<close> gives \<open>v\<close>
  clamped to the range from 1 to 10.
\<close>

theorem analyze_article_impact_score:
  "(snd (analyze_article api article) = Inr (Some d) \<longrightarrow>
      (\<exists>n. map_of d ''impact_score'' = Some (PInt n) \<and> 1 \<le> n \<and> n \<le> 10)) \<and>
   (is_text_article article \<longrightarrow>
      returned_field ''impact_score''
        (analyze_article (Configured (GenText ''IMPACT_SCORE: 15'')) article) = Some (PInt 10) \<and>
      returned_field ''impact_score''
        (analyze_article (Configured (GenText ''IMPACT_SCORE: 0'')) article) = Some (PInt 1) \<and>
      returned_field ''impact_score''
        (analyze_article (Configured (GenText ''IMPACT_SCORE: 7'')) article) = Some (PInt 7) \<and>
      (re_search flags_ignorecase score_re (py_strip reply) = None \<longrightarrow>
         returned_field ''impact_score''
           (analyze_article (Configured (GenText reply)) article) = Some (PInt 5)) \<and>
      (reply \<noteq> [] \<and> re_search flags_ignorecase score_re (py_strip reply) = Some (Some ds) \<and>
       py_int ds = Inr v \<longrightarrow>
         returned_field ''impact_score''
           (analyze_article (Configured (GenText reply)) article) = Some (PInt (max 1 (min 10 v)))))"
proof (intro conjI impI)
  assume "snd (analyze_article api article) = Inr (Some d)"
  from analyze_article_fields [OF this]
  show "\<exists>n. map_of d ''impact_score'' = Some (PInt n) \<and> 1 \<le> n \<and> n \<le> 10" by blast
next
  assume "is_text_article article"
  then show "returned_field ''impact_score''
        (analyze_article (Configured (GenText ''IMPACT_SCORE: 15'')) article) = Some (PInt 10)"
    by (simp add: returned_field_text score_examples)
next
  assume "is_text_article article"
  then show "returned_field ''impact_score''
        (analyze_article (Configured (GenText ''IMPACT_SCORE: 0'')) article) = Some (PInt 1)"
    by (simp add: returned_field_text score_examples)
next
  assume "is_text_article article"
  then show "returned_field ''impact_score''
        (analyze_article (Configured (GenText ''IMPACT_SCORE: 7'')) article) = Some (PInt 7)"
    by (simp add: returned_field_text score_examples)
next
  assume a: "is_text_article article"
    and n: "re_search flags_ignorecase score_re (py_strip reply) = None"
  show "returned_field ''impact_score''
           (analyze_article (Configured (GenText reply)) article) = Some (PInt 5)"
  proof (cases "reply = []")
    case True
    with a show ?thesis by (simp add: returned_field_text analyze_try_def)
  next
    case False
    from analyze_try_text [OF False] parse_score_absent [OF n] a show ?thesis
      by (auto simp: returned_field_text)
  qed
next
  assume a: "is_text_article article"
    and r: "reply \<noteq> [] \<and> re_search flags_ignorecase score_re (py_strip reply) = Some (Some ds) \<and>
       py_int ds = Inr v"
  then have "parse_score (py_strip reply) = Inr (max 1 (min 10 v))"
    by (simp add: parse_score_clamps)
  with analyze_try_text [of reply] r a
  show "returned_field ''impact_score''
           (analyze_article (Configured (GenText reply)) article) = Some (PInt (max 1 (min 10 v)))"
    by (auto simp: returned_field_text)
qed

theorem analyze_article_impact_score_witness:
  "(let article = [(''title'', PStr ''T''), (''description'', PStr ''D'')] in
    snd (analyze_article (Configured (GenText ''Impact score: 42'')) article) =
      Inr (Some [(''summary'', PStr ''Summary not available.''), (''sentiment'', PStr ''Neutral''),
                 (''impact_score'', PInt 10)]) \<and>
    is_text_article article \<and>
    returned_field ''impact_score''
      (analyze_article (Configured (GenText ''IMPACT_SCORE: 15'')) article) = Some (PInt 10) \<and>
    returned_field ''impact_score''
      (analyze_article (Configured (GenText ''IMPACT_SCORE: 0'')) article) = Some (PInt 1) \<and>
    returned_field ''impact_score''
      (analyze_article (Configured (GenText ''IMPACT_SCORE: 7'')) article) = Some (PInt 7) \<and>
    re_search flags_ignorecase score_re (py_strip ''no score here'') = None \<and>
    returned_field ''impact_score''
      (analyze_article (Configured (GenText ''no score here'')) article) = Some (PInt 5) \<and>
    ''Impact score: 42'' \<noteq> [] \<and>
    re_search flags_ignorecase score_re (py_strip ''Impact score: 42'') = Some (Some ''42'') \<and>
    py_int ''42'' = Inr 42 \<and>
    returned_field ''impact_score''
      (analyze_article (Configured (GenText ''Impact score: 42'')) article) =
        Some (PInt (max 1 (min 10 42))))"
proof -
  have 1: "is_text_article [(''title'', PStr ''T''), (''description'', PStr ''D'')]"
    by (simp add: is_text_article_def)
  have 2: "re_search flags_ignorecase score_re (py_strip ''no score here'') = None"
    by code_simp
  have 3: "analyze_try (GenText ''Impact score: 42'') =
      Inr [(''summary'', PStr ''Summary not available.''), (''sentiment'', PStr ''Neutral''),
                 (''impact_score'', PInt 10)]"
    by code_simp
  have 4: "snd (analyze_article (Configured (GenText ''Impact score: 42''))
                 [(''title'', PStr ''T''), (''description'', PStr ''D'')]) =
      Inr (Some [(''summary'', PStr ''Summary not available.''), (''sentiment'', PStr ''Neutral''),
                 (''impact_score'', PInt 10)])"
    by (simp add: analyze_article_def dict_index_def 3)
  have 5: "re_search flags_ignorecase score_re (py_strip ''Impact score: 42'') = Some (Some ''42'')"
    by code_simp
  have 6: "py_int ''42'' = Inr 42"
    by code_simp
  from analyze_article_impact_score
    [of "Configured (GenText ''Impact score: 42'')"
        "[(''title'', PStr ''T''), (''description'', PStr ''D'')]"
        "[(''summary'', PStr ''Summary not available.''), (''sentiment'', PStr ''Neutral''),
          (''impact_score'', PInt 10)]"
        "''no score here''" "[]" 0]
    analyze_article_impact_score
    [of "Configured (GenText ''Impact score: 42'')"
        "[(''title'', PStr ''T''), (''description'', PStr ''D'')]"
        "[(''summary'', PStr ''Summary not available.''), (''sentiment'', PStr ''Neutral''),
          (''impact_score'', PInt 10)]"
        "''Impact score: 42''" "''42''" 42]
    1 2 4 5 6
  show ?thesis by (simp add: Let_def)
qed

lemma analyze_try_shape:
  assumes "analyze_try gen = Inr analysis"
  shows "\<exists>summary sentiment score.
           analysis = [(''summary'', PStr summary), (''sentiment'', PStr sentiment),
                       (''impact_score'', PInt score)] \<and>
           1 \<le> score \<and> score \<le> 10 \<and>
           (sentiment \<in> {''Positive'', ''Negative'', ''Tense'', ''Neutral''} \<or>
            gen = GenText [] \<and> sentiment = ''neutral'')"
proof (cases gen)
  case (GenRaises e)
  with assms show ?thesis by (simp add: analyze_try_def)
next
  case (GenText reply)
  show ?thesis
  proof (cases "reply = []")
    case True
    with assms GenText show ?thesis by (auto simp: analyze_try_def)
  next
    case False
    from analyze_try_text [OF False] obtain summary sentiment where
      canon: "sentiment \<in> {''positive'', ''negative'', ''tense'', ''neutral''}" and
      eq: "analyze_try (GenText reply) =
             (case parse_score (py_strip reply) of
                Inl e \<Rightarrow> Inl e
              | Inr n \<Rightarrow> Inr [(''summary'', PStr summary),
                              (''sentiment'', PStr (py_capitalize sentiment)),
                              (''impact_score'', PInt n)])"
      by blast
    show ?thesis
    proof (cases "parse_score (py_strip reply)")
      case (Inl e)
      with eq assms GenText show ?thesis by simp
    next
      case (Inr n)
      with eq assms GenText have
        "analysis = [(''summary'', PStr summary), (''sentiment'', PStr (py_capitalize sentiment)),
                     (''impact_score'', PInt n)]" by simp
      with parse_score_range [OF Inr] py_capitalize_canonical [OF canon]
      show ?thesis by blast
    qed
  qed
qed

lemma analyze_article_analyzable:
  assumes "is_analyzable_article article"
  shows "\<exists>d. map_of article ''description'' = Some (PStr d) \<and>
           snd (analyze_article (Configured gen) article) =
             (case analyze_try gen of
                Inr analysis \<Rightarrow> Inr (Some analysis)
              | Inl e \<Rightarrow> Inr (Some [(''summary'', PStr (take 200 d @ ''...'')),
                                    (''sentiment'', PStr ''Neutral''),
                                    (''impact_score'', PInt 5)]))"
  using assms
  by (auto simp: is_analyzable_article_def analyze_article_def analyze_except_def dict_index_def
        split: option.splits pyval.splits sum.splits)

lemma analyze_article_raises_unless_analyzable:
  assumes "\<not> is_analyzable_article article"
  shows "\<exists>x. snd (analyze_article (Configured (GenRaises e)) article) = Inl x"
  using assms
  by (auto simp: is_analyzable_article_def analyze_article_def analyze_except_def dict_index_def
        analyze_try_def split: option.splits pyval.splits sum.splits)

text \<open>
  Claim C10, as amended. For an article whose title is a string or a list and whose
  description is a string, \<open>analyze_article\<close> returns \<open>None\<close> when the
  configuration of the model fails. Whenever the configuration succeeds, whatever the
  generation does (it raises, gives an empty text or any other text), it returns an
  analysis: the dictionary of exactly the three fields summary (a string), sentiment (a
  string: one of the four capitalized values, or \<open>neutral\<close> on the empty reply) and
  impact score (an integer from 1 to 10). So it returns \<open>None\<close> exactly when the
  configuration fails.
\<close>

theorem analyze_article_nothing_iff:
  assumes "is_analyzable_article article"
  shows "snd (analyze_article (ConfigureRaises e) article) = Inr None \<and>
         (\<exists>summary sentiment score.
            snd (analyze_article (Configured gen) article) =
              Inr (Some [(''summary'', PStr summary), (''sentiment'', PStr sentiment),
                         (''impact_score'', PInt score)]) \<and>
            1 \<le> score \<and> score \<le> 10 \<and>
            (sentiment \<in> {''Positive'', ''Negative'', ''Tense'', ''Neutral''} \<or>
             gen = GenText [] \<and> sentiment = ''neutral'')) \<and>
         (snd (analyze_article api article) = Inr None \<longleftrightarrow> (\<exists>x. api = ConfigureRaises x))"
proof -
  have cfg: "\<And>x. snd (analyze_article (ConfigureRaises x) article) = Inr None"
    by (simp add: analyze_article_def)
  have ok: "\<exists>summary sentiment score.
            snd (analyze_article (Configured g) article) =
              Inr (Some [(''summary'', PStr summary), (''sentiment'', PStr sentiment),
                         (''impact_score'', PInt score)]) \<and>
            1 \<le> score \<and> score \<le> 10 \<and>
            (sentiment \<in> {''Positive'', ''Negative'', ''Tense'', ''Neutral''} \<or>
             g = GenText [] \<and> sentiment = ''neutral'')" for g
  proof -
    from analyze_article_analyzable [OF assms, of g] obtain d where
      eq: "snd (analyze_article (Configured g) article) =
             (case analyze_try g of
                Inr analysis \<Rightarrow> Inr (Some analysis)
              | Inl x \<Rightarrow> Inr (Some [(''summary'', PStr (take 200 d @ ''...'')),
                                    (''sentiment'', PStr ''Neutral''),
                                    (''impact_score'', PInt 5)]))"
      by blast
    show ?thesis
    proof (cases "analyze_try g")
      case (Inl x)
      with eq show ?thesis by simp
    next
      case (Inr analysis)
      from analyze_try_shape [OF Inr] eq Inr show ?thesis by auto
    qed
  qed
  have "snd (analyze_article api article) = Inr None \<longleftrightarrow> (\<exists>x. api = ConfigureRaises x)"
  proof (cases api)
    case (ConfigureRaises x)
    then show ?thesis using cfg by simp
  next
    case (Configured g)
    then show ?thesis using ok [of g] by auto
  qed
  with cfg ok [of gen] show ?thesis by blast
qed

theorem analyze_article_nothing_iff_witness:
  "is_analyzable_article [(''title'', PStr ''T''), (''description'', PStr ''D'')] \<and>
   snd (analyze_article (ConfigureRaises ValueError)
          [(''title'', PStr ''T''), (''description'', PStr ''D'')]) = Inr None \<and>
   snd (analyze_article (Configured (GenRaises Timeout))
          [(''title'', PStr ''T''), (''description'', PStr ''D'')]) =
     Inr (Some [(''summary'', PStr ''D...''), (''sentiment'', PStr ''Neutral''),
                (''impact_score'', PInt 5)]) \<and>
   (snd (analyze_article (Configured (GenText ''no fields''))
          [(''title'', PStr ''T''), (''description'', PStr ''D'')]) = Inr None \<longleftrightarrow>
      (\<exists>x. Configured (GenText ''no fields'') = ConfigureRaises x))"
proof -
  have 1: "is_analyzable_article [(''title'', PStr ''T''), (''description'', PStr ''D'')]"
    by (simp add: is_analyzable_article_def)
  have 2: "snd (analyze_article (Configured (GenRaises Timeout))
          [(''title'', PStr ''T''), (''description'', PStr ''D'')]) =
     Inr (Some [(''summary'', PStr ''D...''), (''sentiment'', PStr ''Neutral''),
                (''impact_score'', PInt 5)])"
    by (simp add: analyze_article_def analyze_except_def analyze_try_def dict_index_def)
  from analyze_article_nothing_iff [OF 1, of ValueError "GenRaises Timeout"
      "Configured (GenText ''no fields'')"] 1 2
  show ?thesis by simp
qed

text \<open>
  The claim as stated asks only for the two keys. With both keys present and a description
  that is \<open>None\<close>, or a title that is a number, a failure of the model call reaches
  the \<open>except\<close> clause, whose slices raise a \<open>TypeError\<close> that leaves the function:
  nothing is returned although the configuration succeeded.
\<close>

theorem analyze_article_nothing_iff_counterexample:
  "snd (analyze_article (Configured (GenRaises (OtherException ''quota'')))
          [(''title'', PStr ''T''), (''description'', PNone)]) = Inl TypeError \<and>
   snd (analyze_article (Configured (GenRaises (OtherException ''quota'')))
          [(''title'', PInt 5), (''description'', PStr ''D'')]) = Inl TypeError"
  by (simp add: analyze_article_def analyze_except_def analyze_try_def dict_index_def)

section \<open>The summary pattern and the specification\<close>

lemma match_lit_ci:
  "ignorecase fl \<Longrightarrow>
     match_lit fl m s = (if has_prefix_ci m s then Some (drop (length m) s) else None)"
  by (induction fl m s rule: match_lit.induct)
     (auto simp: has_prefix_ci_def py_lower_def char_eq_def)

lemma rmatch_Seq_Lit:
  "ignorecase fl \<Longrightarrow>
     rmatch fl (Seq (Lit m) r) (s, g) =
       (if has_prefix_ci m s then rmatch fl r (drop (length m) s, g) else [])"
  by (simp add: match_lit_ci)

lemma re_search_marker_absent:
  "ignorecase fl \<Longrightarrow> text_after_marker m s = None \<Longrightarrow> re_search fl (Seq (Lit m) r) s = None"
proof (induction s)
  case Nil
  then show ?case
    by (subst re_search.simps, subst (asm) text_after_marker.simps)
       (simp add: rmatch_Seq_Lit del: rmatch.simps split: if_splits)
next
  case (Cons c cs)
  from Cons.prems(2) have "\<not> has_prefix_ci m (c # cs)" and "text_after_marker m cs = None"
    by (subst (asm) text_after_marker.simps, simp split: if_splits)+
  with Cons show ?case
    by (subst re_search.simps) (simp add: rmatch_Seq_Lit del: rmatch.simps)
qed

lemma re_search_marker_present:
  "ignorecase fl \<Longrightarrow> text_after_marker m s = Some rest \<Longrightarrow>
     rmatch fl r (rest, None) = st # sts \<Longrightarrow>
     re_search fl (Seq (Lit m) r) s = Some (snd st)"
proof (induction s)
  case Nil
  then show ?case
    by (subst re_search.simps, subst (asm) text_after_marker.simps)
       (simp add: rmatch_Seq_Lit del: rmatch.simps split: if_splits)
next
  case (Cons c cs)
  show ?case
  proof (cases "has_prefix_ci m (c # cs)")
    case True
    with Cons.prems(2) have "rest = drop (length m) (c # cs)"
      by (subst (asm) text_after_marker.simps) simp
    with True Cons.prems show ?thesis
      by (subst re_search.simps) (simp add: rmatch_Seq_Lit del: rmatch.simps)
  next
    case False
    with Cons.prems(2) have "text_after_marker m cs = Some rest"
      by (subst (asm) text_after_marker.simps) simp
    from Cons.IH [OF Cons.prems(1) this Cons.prems(3)] False Cons.prems(1) show ?thesis
      by (subst re_search.simps) (simp add: rmatch_Seq_Lit del: rmatch.simps)
  qed
qed

lemma text_after_marker_suffix:
  "text_after_marker m s = Some rest \<Longrightarrow> \<exists>pre. s = pre @ rest"
proof (induction s)
  case Nil
  then show ?case by (subst (asm) text_after_marker.simps) (simp split: if_splits)
next
  case (Cons c cs)
  show ?case
  proof (cases "has_prefix_ci m (c # cs)")
    case True
    with Cons.prems have "rest = drop (length m) (c # cs)"
      by (subst (asm) text_after_marker.simps) simp
    then have "c # cs = take (length m) (c # cs) @ rest" by simp
    then show ?thesis by blast
  next
    case False
    with Cons.prems have "text_after_marker m cs = Some rest"
      by (subst (asm) text_after_marker.simps) simp
    from Cons.IH [OF this] obtain pre where "cs = pre @ rest" by blast
    then have "c # cs = (c # pre) @ rest" by simp
    then show ?thesis by blast
  qed
qed

lemma star_greedy_first: "\<exists>others. star_greedy P s = dropWhile P s # others"
  by (induction s) auto

lemma rmatch_lookahead_ci:
  "ignorecase fl \<Longrightarrow>
     rmatch fl (Lookahead (Alt (Lit m) EndAnchor)) (s, g) =
       (if has_prefix_ci m s \<or> s = [] \<or> s = [newline] then [(s, g)] else [])"
  by (simp add: match_lit_ci)

lemma lazy_until_marker:
  assumes "ignorecase fl" and "body = [] \<or> last body \<noteq> newline"
  shows "\<exists>u sts.
           concat (map (rmatch fl (Lookahead (Alt (Lit m) EndAnchor)))
                    (map (\<lambda>s'. (s', G s')) (star_lazy (\<lambda>c. True) body))) = (u, G u) # sts \<and>
           body = text_before_marker m body @ u"
  using assms(2)
proof (induction body)
  case Nil
  show ?case
    by (subst text_before_marker.simps) (simp add: rmatch_lookahead_ci [OF assms(1)] del: rmatch.simps)
next
  case (Cons x xs)
  show ?case
  proof (cases "has_prefix_ci m (x # xs)")
    case True
    then show ?thesis
      by (subst text_before_marker.simps) (simp add: rmatch_lookahead_ci [OF assms(1)] del: rmatch.simps)
  next
    case False
    from Cons.prems have nl: "x # xs \<noteq> [newline]" by auto
    from Cons.prems have "xs = [] \<or> last xs \<noteq> newline" by (auto split: if_splits)
    from Cons.IH [OF this] obtain u sts where
      "concat (map (rmatch fl (Lookahead (Alt (Lit m) EndAnchor)))
                    (map (\<lambda>s'. (s', G s')) (star_lazy (\<lambda>c. True) xs))) = (u, G u) # sts"
      "xs = text_before_marker m xs @ u" by blast
    with False nl show ?thesis
      by (subst text_before_marker.simps) (simp add: rmatch_lookahead_ci [OF assms(1)] del: rmatch.simps)
  qed
qed

lemma rmatch_Seq_first:
  "rmatch fl a st0 = st1 # others \<Longrightarrow> rmatch fl b st1 = st # sts \<Longrightarrow>
     \<exists>sts'. rmatch fl (Seq a b) st0 = st # sts'"
  by simp

lemma summary_tail_match:
  assumes "ignorecase fl" and "dotall fl"
      and "dropWhile is_space rest = c # body"
      and "body = [] \<or> last body \<noteq> newline"
  shows "\<exists>sts u.
           rmatch fl (Seq (Star Space) (Seq (Group (PlusLazy AnyChar))
                        (Lookahead (Alt (Lit m) EndAnchor)))) (rest, None) =
             (u, Some (c # text_before_marker m body)) # sts"
proof -
  let ?LA = "Lookahead (Alt (Lit m) EndAnchor)"
  let ?G = "\<lambda>s'. Some (take (length (c # body) - length s') (c # body))"
  from star_greedy_first [of is_space rest] assms(3) obtain others where
    sg: "star_greedy is_space rest = (c # body) # others" by auto
  from assms(2) have any: "in_class fl AnyChar = (\<lambda>c. True)" by (simp add: fun_eq_iff)
  have grp: "rmatch fl (Group (PlusLazy AnyChar)) (c # body, None) =
               map (\<lambda>s'. (s', ?G s')) (star_lazy (\<lambda>c. True) body)"
    by (simp add: any comp_def)
  from lazy_until_marker [OF assms(1) assms(4), of m ?G] obtain u sts where
    u: "concat (map (rmatch fl ?LA) (map (\<lambda>s'. (s', ?G s')) (star_lazy (\<lambda>c. True) body))) =
          (u, ?G u) # sts" and
    b: "body = text_before_marker m body @ u" by blast
  have "length (c # body) - length u = Suc (length (text_before_marker m body))"
    by (subst b) simp
  then have "?G u = Some (c # take (length (text_before_marker m body)) body)" by simp
  also have "take (length (text_before_marker m body)) body = text_before_marker m body"
    by (subst (2) b) simp
  finally have G: "?G u = Some (c # text_before_marker m body)" .
  have "rmatch fl (Seq (Group (PlusLazy AnyChar)) ?LA) (c # body, None) =
          (u, Some (c # text_before_marker m body)) # sts"
    unfolding rmatch.simps(6) grp u G ..
  moreover have "in_class fl Space = is_space" by (simp add: fun_eq_iff)
  then have "rmatch fl (Star Space) (rest, None) = (c # body, None) # map (\<lambda>s'. (s', None)) others"
    by (simp add: sg)
  ultimately show ?thesis using rmatch_Seq_first by blast
qed


lemma hd_dropWhile_not: "dropWhile P xs \<noteq> [] \<Longrightarrow> \<not> P (hd (dropWhile P xs))"
  by (induction xs) auto

lemma py_strip_last: "py_strip s = [] \<or> \<not> is_space (last (py_strip s))"
proof (cases "dropWhile is_space (rev (dropWhile is_space s)) = []")
  case True
  then show ?thesis by (simp add: py_strip_def)
next
  case False
  from hd_dropWhile_not [OF this] False show ?thesis
    by (simp add: py_strip_def last_rev)
qed

lemma py_strip_length: "length (py_strip s) \<le> length s"
proof -
  have "length (py_strip s) \<le> length (dropWhile is_space s)"
    unfolding py_strip_def using length_dropWhile_le [of is_space "rev (dropWhile is_space s)"]
    by simp
  also have "\<dots> \<le> length s" by (rule length_dropWhile_le)
  finally show ?thesis .
qed

lemma py_strip_space_Cons: "is_space x \<Longrightarrow> py_strip (x # s) = py_strip s"
  by (simp add: py_strip_def)

lemma py_strip_spaces_append: "list_all is_space ws \<Longrightarrow> py_strip (ws @ s) = py_strip s"
  by (induction ws) (simp_all add: py_strip_space_Cons)

lemma text_before_marker_Nil: "text_before_marker m [] = []"
  by (subst text_before_marker.simps) simp

lemma text_before_marker_skip_space:
  "py_strip (text_before_marker m rest) \<noteq> [] \<Longrightarrow>
     \<exists>c body. dropWhile is_space rest = c # body \<and>
       text_before_marker m rest = takeWhile is_space rest @ c # text_before_marker m body"
proof (induction rest)
  case Nil
  then show ?case by (simp add: text_before_marker_Nil py_strip_def)
next
  case (Cons x xs)
  from Cons.prems have np: "\<not> has_prefix_ci m (x # xs)"
    by (subst (asm) text_before_marker.simps) (auto simp: py_strip_def split: if_splits)
  then have tb: "text_before_marker m (x # xs) = x # text_before_marker m xs"
    by (subst text_before_marker.simps) simp
  show ?case
  proof (cases "is_space x")
    case True
    with Cons.prems tb have "py_strip (text_before_marker m xs) \<noteq> []"
      by (simp add: py_strip_space_Cons)
    from Cons.IH [OF this] True tb show ?thesis by auto
  next
    case False
    with tb show ?thesis by simp
  qed
qed

lemma newline_is_space: "is_space newline"
  by (simp add: is_space_def newline_def)

lemma parse_summary_spec:
  assumes "text = [] \<or> \<not> is_space (last text)"
      and "\<forall>rest. text_after_marker ''SUMMARY:'' text = Some rest \<longrightarrow>
             py_strip (text_before_marker ''SENTIMENT:'' rest) \<noteq> []"
  shows "parse_summary text = Inr (spec_summary text)"
proof (cases "text_after_marker ''SUMMARY:'' text")
  case None
  then have "re_search flags_dotall_ignorecase summary_re text = None"
    unfolding summary_re_def by (intro re_search_marker_absent) (simp_all add: flags_dotall_ignorecase_def)
  with None show ?thesis by (simp add: parse_summary_def spec_summary_def)
next
  case (Some rest)
  with assms(2) have ne: "py_strip (text_before_marker ''SENTIMENT:'' rest) \<noteq> []" by simp
  from text_before_marker_skip_space [OF ne] obtain c body where
    dw: "dropWhile is_space rest = c # body" and
    tb: "text_before_marker ''SENTIMENT:'' rest =
           takeWhile is_space rest @ c # text_before_marker ''SENTIMENT:'' body" by blast
  from text_after_marker_suffix [OF Some] obtain pre where pre: "text = pre @ rest" by blast
  from pre have "text = pre @ takeWhile is_space rest @ dropWhile is_space rest" by simp
  then have decomp: "text = (pre @ takeWhile is_space rest @ [c]) @ body"
    unfolding dw by simp
  have body: "body = [] \<or> last body \<noteq> newline"
  proof (cases "body = []")
    case True
    then show ?thesis by simp
  next
    case False
    have "last text = last body" by (subst decomp) (simp add: False)
    moreover have "text \<noteq> []" by (subst decomp) simp
    ultimately have "\<not> is_space (last body)" using assms(1) by simp
    with newline_is_space show ?thesis by auto
  qed
  have fl: "ignorecase flags_dotall_ignorecase" "dotall flags_dotall_ignorecase"
    by (simp_all add: flags_dotall_ignorecase_def)
  from summary_tail_match [OF fl dw body, of "''SENTIMENT:''"] obtain sts u where
    "rmatch flags_dotall_ignorecase (Seq (Star Space) (Seq (Group (PlusLazy AnyChar))
        (Lookahead (Alt (Lit ''SENTIMENT:'') EndAnchor)))) (rest, None) =
       (u, Some (c # text_before_marker ''SENTIMENT:'' body)) # sts" by blast
  from re_search_marker_present [OF fl(1) Some this]
  have "re_search flags_dotall_ignorecase summary_re text =
          Some (Some (c # text_before_marker ''SENTIMENT:'' body))"
    by (simp add: summary_re_def)
  then have "parse_summary text = Inr (py_strip (c # text_before_marker ''SENTIMENT:'' body))"
    by (simp add: parse_summary_def group1_def)
  moreover have "py_strip (text_before_marker ''SENTIMENT:'' rest) =
                   py_strip (c # text_before_marker ''SENTIMENT:'' body)"
    unfolding tb by (rule py_strip_spaces_append) (auto simp: list_all_iff dest: set_takeWhileD)
  ultimately show ?thesis using Some by (simp add: spec_summary_def)
qed

lemma py_int_digits:
  "ds \<noteq> [] \<Longrightarrow> list_all is_digit ds \<Longrightarrow> length ds \<le> int_max_str_digits \<Longrightarrow> \<exists>v. py_int ds = Inr v"
  by (simp add: py_int_def)

lemma parse_score_returns:
  assumes "length text \<le> int_max_str_digits"
  shows "\<exists>n. parse_score text = Inr n"
proof (cases "re_search flags_ignorecase score_re text")
  case None
  then show ?thesis by (simp add: parse_score_def)
next
  case (Some m)
  from parse_score_digits [OF Some] obtain ds where
    ds: "m = Some ds" "ds \<noteq> []" "list_all is_digit ds" "length ds \<le> length text" by blast
  with assms have "length ds \<le> int_max_str_digits" by simp
  from py_int_digits [OF ds(2) ds(3) this] obtain v where "py_int ds = Inr v" by blast
  with Some ds(1) show ?thesis by (simp add: parse_score_def group1_def)
qed

lemma analyze_try_summary:
  assumes "reply \<noteq> []" and "length reply \<le> int_max_str_digits"
      and "\<forall>rest. text_after_marker ''SUMMARY:'' (py_strip reply) = Some rest \<longrightarrow>
             py_strip (text_before_marker ''SENTIMENT:'' rest) \<noteq> []"
  shows "\<exists>d. analyze_try (GenText reply) = Inr d \<and>
             map_of d ''summary'' = Some (PStr (spec_summary (py_strip reply)))"
proof -
  from analyze_try_text [OF assms(1)] obtain summary sentiment where
    s: "parse_summary (py_strip reply) = Inr summary" and
    eq: "analyze_try (GenText reply) =
             (case parse_score (py_strip reply) of
                Inl e \<Rightarrow> Inl e
              | Inr n \<Rightarrow> Inr [(''summary'', PStr summary),
                              (''sentiment'', PStr (py_capitalize sentiment)),
                              (''impact_score'', PInt n)])"
    by blast
  from py_strip_length [of reply] assms(2) have "length (py_strip reply) \<le> int_max_str_digits"
    by simp
  from parse_score_returns [OF this] obtain n where n: "parse_score (py_strip reply) = Inr n"
    by blast
  from parse_summary_spec [OF py_strip_last assms(3)] s
  have "summary = spec_summary (py_strip reply)" by simp
  with eq n show ?thesis by simp
qed

lemma summary_example:
  "analyze_try (GenText ''SUMMARY: X. Y.\<newline>SENTIMENT: Positive\<newline>IMPACT_SCORE: 12'') =
     Inr [(''summary'', PStr ''X. Y.''), (''sentiment'', PStr ''Positive''),
          (''impact_score'', PInt 10)]"
  by code_simp

text \<open>
  Where the code and the specification agree on the summary. For an article whose title
  and description are texts: the reply \<open>SUMMARY: X. Y.\<close>, \<open>SENTIMENT: Positive\<close>,
  \<open>IMPACT_SCORE: 12\<close> (three lines) gives the summary \<open>X. Y.\<close>, the sentiment
  \<open>Positive\<close> and the impact score 10; and for a non-empty reply of at most 4300
  characters, taken without its surrounding whitespace, the summary is the one of the
  specification when there is no \<open>SUMMARY:\<close>, or when the text from the first
  \<open>SUMMARY:\<close> up to the next \<open>SENTIMENT:\<close> or the end contains a character that is
  not whitespace.
\<close>

lemma analyze_article_summary_agrees:
  "is_text_article article \<longrightarrow>
     snd (analyze_article
            (Configured (GenText ''SUMMARY: X. Y.\<newline>SENTIMENT: Positive\<newline>IMPACT_SCORE: 12''))
            article) =
       Inr (Some [(''summary'', PStr ''X. Y.''), (''sentiment'', PStr ''Positive''),
                  (''impact_score'', PInt 10)]) \<and>
     (reply \<noteq> [] \<and> length reply \<le> int_max_str_digits \<and>
      (\<forall>rest. text_after_marker ''SUMMARY:'' (py_strip reply) = Some rest \<longrightarrow>
              py_strip (text_before_marker ''SENTIMENT:'' rest) \<noteq> []) \<longrightarrow>
        returned_field ''summary'' (analyze_article (Configured (GenText reply)) article) =
          Some (PStr (spec_summary (py_strip reply))))"
proof (intro impI conjI)
  assume "is_text_article article"
  then obtain t d where
    td: "map_of article ''title'' = Some (PStr t)" "map_of article ''description'' = Some (PStr d)"
    using is_text_articleD by blast
  show "snd (analyze_article
            (Configured (GenText ''SUMMARY: X. Y.\<newline>SENTIMENT: Positive\<newline>IMPACT_SCORE: 12''))
            article) =
       Inr (Some [(''summary'', PStr ''X. Y.''), (''sentiment'', PStr ''Positive''),
                  (''impact_score'', PInt 10)])"
    by (simp add: analyze_article_text [OF td] summary_example)
next
  assume a: "is_text_article article"
    and r: "reply \<noteq> [] \<and> length reply \<le> int_max_str_digits \<and>
      (\<forall>rest. text_after_marker ''SUMMARY:'' (py_strip reply) = Some rest \<longrightarrow>
              py_strip (text_before_marker ''SENTIMENT:'' rest) \<noteq> [])"
  from r analyze_try_summary [of reply] obtain d where
    "analyze_try (GenText reply) = Inr d"
    "map_of d ''summary'' = Some (PStr (spec_summary (py_strip reply)))" by blast
  with a show "returned_field ''summary'' (analyze_article (Configured (GenText reply)) article) =
          Some (PStr (spec_summary (py_strip reply)))"
    by (simp add: returned_field_text)
qed

lemma analyze_article_summary_agrees_example:
  "is_text_article [(''title'', PStr ''T''), (''description'', PStr ''D'')] \<and>
   ''Summary: Talks resumed. sentiment: tense'' \<noteq> [] \<and>
   length ''Summary: Talks resumed. sentiment: tense'' \<le> int_max_str_digits \<and>
   text_after_marker ''SUMMARY:'' (py_strip ''Summary: Talks resumed. sentiment: tense'') =
     Some '' Talks resumed. sentiment: tense'' \<and>
   py_strip (text_before_marker ''SENTIMENT:'' '' Talks resumed. sentiment: tense'') \<noteq> [] \<and>
   returned_field ''summary''
     (analyze_article (Configured (GenText ''Summary: Talks resumed. sentiment: tense''))
        [(''title'', PStr ''T''), (''description'', PStr ''D'')]) =
     Some (PStr ''Talks resumed.'')"
proof -
  have 1: "is_text_article [(''title'', PStr ''T''), (''description'', PStr ''D'')]"
    by (simp add: is_text_article_def)
  have 2: "length ''Summary: Talks resumed. sentiment: tense'' \<le> int_max_str_digits"
    by (simp add: int_max_str_digits_def)
  have 3: "text_after_marker ''SUMMARY:'' (py_strip ''Summary: Talks resumed. sentiment: tense'') =
     Some '' Talks resumed. sentiment: tense''"
    by code_simp
  have 4: "py_strip (text_before_marker ''SENTIMENT:'' '' Talks resumed. sentiment: tense'') =
     ''Talks resumed.''"
    by code_simp
  have 5: "spec_summary (py_strip ''Summary: Talks resumed. sentiment: tense'') = ''Talks resumed.''"
    by code_simp
  from analyze_article_summary_agrees
    [of "[(''title'', PStr ''T''), (''description'', PStr ''D'')]"
        "''Summary: Talks resumed. sentiment: tense''"] 1 2 3 4 5
  show ?thesis by simp
qed

text \<open>
  Claim C5. On the reply \<open>SUMMARY:SENTIMENT: tense\<close>, and on the three-line reply
  \<open>SUMMARY:\<close>, \<open>SENTIMENT: Positive\<close>, \<open>IMPACT_SCORE: 7\<close>, no text stands
  between \<open>SUMMARY:\<close> and \<open>SENTIMENT:\<close>, and the summary of the specification is
  empty. The summary that \<open>analyze_article\<close> returns is everything after
  \<open>SUMMARY:\<close>, the \<open>SENTIMENT:\<close> marker included: the group \<open>(.+?)\<close> of line
  59 takes at least one character, the first of the marker that the lookahead of the same
  pattern is there to stop at.
\<close>

theorem analyze_article_summary_past_marker:
  "returned_field ''summary''
     (analyze_article (Configured (GenText ''SUMMARY:SENTIMENT: tense''))
        [(''title'', PStr ''T''), (''description'', PStr ''D'')]) =
     Some (PStr ''SENTIMENT: tense'') \<and>
   spec_summary ''SUMMARY:SENTIMENT: tense'' = [] \<and>
   returned_field ''summary''
     (analyze_article
        (Configured (GenText ''SUMMARY:\<newline>SENTIMENT: Positive\<newline>IMPACT_SCORE: 7''))
        [(''title'', PStr ''T''), (''description'', PStr ''D'')]) =
     Some (PStr ''SENTIMENT: Positive\<newline>IMPACT_SCORE: 7'') \<and>
   spec_summary ''SUMMARY:\<newline>SENTIMENT: Positive\<newline>IMPACT_SCORE: 7'' = []"
  by code_simp

section \<open>Properties of \<open>batch_analyze_articles\<close>\<close>

lemma analyze_article_returns:
  assumes "is_text_article article"
  shows "\<exists>r. snd (analyze_article api article) = Inr r"
proof -
  from assms obtain t d where
    td: "map_of article ''title'' = Some (PStr t)" "map_of article ''description'' = Some (PStr d)"
    using is_text_articleD by blast
  show ?thesis
  proof (cases api)
    case (ConfigureRaises e)
    then show ?thesis by (simp add: analyze_article_def)
  next
    case (Configured gen)
    then show ?thesis
      by (simp add: analyze_article_text [OF td] analyze_except_text [OF td] split: sum.splits)
  qed
qed

lemma analysis_not_empty:
  "snd (analyze_article api article) = Inr (Some d) \<Longrightarrow> d \<noteq> []"
  using analyze_article_fields [of api article d] by auto

lemma batch_append_eq:
  assumes "snd (analyze_article api article) = Inr r"
  shows "batch_append analyzed article r =
           analyzed @ (case r of None \<Rightarrow> [] | Some d \<Rightarrow> [dict_merge article d])"
proof (cases r)
  case None
  then show ?thesis by (simp add: batch_append_def)
next
  case (Some d)
  with assms analysis_not_empty [of api article d] show ?thesis
    by (simp add: batch_append_def)
qed

lemma batch_loop_eq:
  assumes "\<forall>article \<in> set articles. is_text_article article"
  shows "batch_loop api i analyzed articles =
           (concat (map (\<lambda>(j, article). fst (analyze_article (api j) article))
                     (enumerate i articles)),
            Inr (analyzed @
                 concat (map (\<lambda>(j, article).
                                case snd (analyze_article (api j) article) of
                                  Inr (Some d) \<Rightarrow> [dict_merge article d]
                                | _ \<Rightarrow> [])
                          (enumerate i articles))))"
  using assms
proof (induction articles arbitrary: i analyzed)
  case Nil
  then show ?case by simp
next
  case (Cons a rest)
  from Cons.prems have a: "is_text_article a" and rest: "\<forall>x \<in> set rest. is_text_article x"
    by simp_all
  from analyze_article_returns [OF a] obtain r where
    r: "snd (analyze_article (api i) a) = Inr r" by blast
  obtain ds where ds: "analyze_article (api i) a = (ds, Inr r)"
    using r by (cases "analyze_article (api i) a") simp
  note ap = batch_append_eq [OF r, of analyzed]
  show ?case
    by (simp add: ds Cons.IH [OF rest] ap split: option.splits)
qed

lemma length_concat_le:
  "(\<forall>x \<in> set xs. length (f x) \<le> 1) \<Longrightarrow> length (concat (map f xs)) \<le> length xs"
  by (induction xs) (auto simp: le_Suc_eq)

text \<open>
  Claim C4. For a list of articles whose titles and descriptions are texts,
  \<open>batch_analyze_articles\<close> returns, in the order of the input, the merge of each
  article with its analysis when \<open>analyze_article\<close> returned one for it, and nothing
  for an article for which it returned \<open>None\<close>; so the output is never longer than the
  input. It emits the diagnostics of the calls of \<open>analyze_article\<close> and none of its
  own.
\<close>

theorem batch_analyze_articles_stable_filter:
  assumes "\<forall>article \<in> set articles. is_text_article article"
  shows "batch_analyze_articles api articles =
           (concat (map (\<lambda>(i, article). fst (analyze_article (api i) article))
                     (enumerate 0 articles)),
            Inr (concat (map (\<lambda>(i, article).
                                case snd (analyze_article (api i) article) of
                                  Inr (Some analysis) \<Rightarrow> [dict_merge article analysis]
                                | _ \<Rightarrow> [])
                          (enumerate 0 articles)))) \<and>
         (\<exists>out. snd (batch_analyze_articles api articles) = Inr out \<and>
                length out \<le> length articles)"
proof -
  let ?f = "\<lambda>(i, article). case snd (analyze_article (api i) article) of
                                  Inr (Some analysis) \<Rightarrow> [dict_merge article analysis]
                                | _ \<Rightarrow> []"
  have eq: "batch_analyze_articles api articles =
           (concat (map (\<lambda>(i, article). fst (analyze_article (api i) article))
                     (enumerate 0 articles)),
            Inr (concat (map ?f (enumerate 0 articles))))"
    unfolding batch_analyze_articles_def by (simp add: batch_loop_eq [OF assms])
  have "\<forall>x \<in> set (enumerate 0 articles). length (?f x) \<le> 1"
    by (auto split: sum.splits option.splits)
  from length_concat_le [OF this]
  have "length (concat (map ?f (enumerate 0 articles))) \<le> length articles" by simp
  with eq show ?thesis by simp
qed

theorem batch_analyze_articles_stable_filter_witness:
  "(let a1 = [(''title'', PStr ''One''), (''description'', PStr ''First.'')];
        a2 = [(''title'', PStr ''Two''), (''description'', PStr ''Second.'')];
        a3 = [(''title'', PStr ''Three''), (''description'', PStr ''Third.'')];
        api = (\<lambda>i. if i = 1 then ConfigureRaises (OtherException ''bad key'')
                    else Configured (GenRaises (OtherException ''quota'')))
    in (\<forall>article \<in> set [a1, a2, a3]. is_text_article article) \<and>
       snd (batch_analyze_articles api [a1, a2, a3]) =
         Inr [[(''title'', PStr ''One''), (''description'', PStr ''First.''),
               (''summary'', PStr ''First....''), (''sentiment'', PStr ''Neutral''),
               (''impact_score'', PInt 5)],
              [(''title'', PStr ''Three''), (''description'', PStr ''Third.''),
               (''summary'', PStr ''Third....''), (''sentiment'', PStr ''Neutral''),
               (''impact_score'', PInt 5)]])"
proof -
  let ?a1 = "[(''title'', PStr ''One''), (''description'', PStr ''First.'')]"
  let ?a2 = "[(''title'', PStr ''Two''), (''description'', PStr ''Second.'')]"
  let ?a3 = "[(''title'', PStr ''Three''), (''description'', PStr ''Third.'')]"
  let ?api = "\<lambda>i::nat. if i = 1 then ConfigureRaises (OtherException ''bad key'')
                    else Configured (GenRaises (OtherException ''quota''))"
  have h: "\<forall>article \<in> set [?a1, ?a2, ?a3]. is_text_article article"
    by (simp add: is_text_article_def)
  from batch_analyze_articles_stable_filter [OF h, of ?api]
  have "snd (batch_analyze_articles ?api [?a1, ?a2, ?a3]) =
          Inr (concat (map (\<lambda>(i, article).
                                case snd (analyze_article (?api i) article) of
                                  Inr (Some analysis) \<Rightarrow> [dict_merge article analysis]
                                | _ \<Rightarrow> [])
                          (enumerate 0 [?a1, ?a2, ?a3])))"
    by simp
  also have "\<dots> = Inr [[(''title'', PStr ''One''), (''description'', PStr ''First.''),
               (''summary'', PStr ''First....''), (''sentiment'', PStr ''Neutral''),
               (''impact_score'', PInt 5)],
              [(''title'', PStr ''Three''), (''description'', PStr ''Third.''),
               (''summary'', PStr ''Third....''), (''sentiment'', PStr ''Neutral''),
               (''impact_score'', PInt 5)]]"
    by (simp add: analyze_article_def analyze_except_def analyze_try_def dict_index_def
          dict_merge_def)
  finally show ?thesis using h by (simp add: Let_def)
qed

end
